theory Spec2Isabelle
  imports Main
begin

section \<open>JavaScript strings and the regular-expression character classes\<close>

text \<open>
  A JavaScript string is a sequence of UTF-16 code units. The regular expressions of the
  source carry no \<^verbatim>\<open>u\<close> flag, so they match code unit by code unit. String
  literals of the source are ASCII and are written \<open>js ''...''\<close>.

  Numbers: the scores of the source are JavaScript numbers. They are modelled as
  mathematical integers, which agree with the source on every value up to \<open>2 ^ 53\<close>.
\<close>

type_synonym jsstring = "nat list"

definition js :: "string \<Rightarrow> jsstring" where
  "js s = map of_char s"

text \<open>The class \<^verbatim>\<open>\s\<close>: the white space and line terminators of ECMAScript.\<close>

definition is_space :: "nat \<Rightarrow> bool" where
  "is_space c \<longleftrightarrow>
     (9 \<le> c \<and> c \<le> 13) \<or> c = 32 \<or> c = 160 \<or> c = 5760 \<or> (8192 \<le> c \<and> c \<le> 8202) \<or>
     c = 8232 \<or> c = 8233 \<or> c = 8239 \<or> c = 8287 \<or> c = 12288 \<or> c = 65279"

text \<open>The class \<^verbatim>\<open>\d\<close> is \<^verbatim>\<open>[0-9]\<close>, the class \<^verbatim>\<open>\w\<close> is \<^verbatim>\<open>[A-Za-z0-9_]\<close>.\<close>

definition is_digit :: "nat \<Rightarrow> bool" where
  "is_digit c \<longleftrightarrow> 48 \<le> c \<and> c \<le> 57"

definition is_word :: "nat \<Rightarrow> bool" where
  "is_word c \<longleftrightarrow> is_digit c \<or> (65 \<le> c \<and> c \<le> 90) \<or> c = 95 \<or> (97 \<le> c \<and> c \<le> 122)"

text \<open>\<^verbatim>\<open>String.prototype.trim\<close>, and the replacement of \<^verbatim>\<open>/^\s+|\s+$/g\<close> by the empty
  string: the white space at both ends is removed.\<close>

definition trim :: "jsstring \<Rightarrow> jsstring" where
  "trim s = rev (dropWhile is_space (rev (dropWhile is_space s)))"

section \<open>The sanitizer of the answer generation (generateAnswers.ts)\<close>

text \<open>The characters kept by \<^verbatim>\<open>/[^\w\s.,?!;:()'"]/g\<close>.\<close>

definition allowed :: "nat \<Rightarrow> bool" where
  "allowed c \<longleftrightarrow> is_word c \<or> is_space c \<or> c \<in> set (js ''.,?!;:()'') \<or> c = 39 \<or> c = 34"

text \<open>The replacement of \<^verbatim>\<open>/\s+/g\<close> by one space: every maximal run of white space
  becomes the single character U+0020.\<close>

function normalize_ws :: "jsstring \<Rightarrow> jsstring" where
  "normalize_ws [] = []"
| "normalize_ws (c # cs) =
     (if is_space c then 32 # normalize_ws (dropWhile is_space cs) else c # normalize_ws cs)"
  by pat_completeness auto
termination
  by (relation "measure length") (auto simp: length_dropWhile_le le_imp_less_Suc)

definition sanitizeInput :: "jsstring \<Rightarrow> jsstring" where
  "sanitizeInput input =
     (if input = [] then []
      else normalize_ws (map (\<lambda>c. if allowed c then c else 32) (trim input)))"

text \<open>No two neighbours of a string are both white space.\<close>

fun no_ws_run :: "jsstring \<Rightarrow> bool" where
  "no_ws_run (a # b # cs) = (\<not> (is_space a \<and> is_space b) \<and> no_ws_run (b # cs))"
| "no_ws_run _ = True"

section \<open>The data model\<close>

text \<open>
  A thrown value is an \<^verbatim>\<open>Error\<close> with its message, or some other value
  (\<^verbatim>\<open>error instanceof Error\<close> is false, and it has no \<^verbatim>\<open>message\<close>).
\<close>

datatype js_error = Error (message: jsstring) | NonError

record Player =
  p_id :: jsstring
  p_gameId :: jsstring
  p_prompt :: "jsstring option"
  p_screenName :: jsstring
  p_totalScore :: "int option"
  p_themeName :: "jsstring option"

record JudgeQuestion =
  q_id :: jsstring
  q_content :: jsstring

record AIAnswer =
  a_id :: jsstring
  a_gameId :: jsstring
  a_playerId :: jsstring
  a_playerName :: jsstring
  a_questionId :: jsstring
  a_question :: jsstring
  a_assistantPrompt :: "jsstring option"
  a_answer :: jsstring
  a_timestamp :: jsstring

record AIAnswerError =
  e_playerId :: jsstring
  e_questionId :: jsstring
  e_error :: jsstring
  e_details :: "jsstring option"

text \<open>An entry of the fan-out's result list: the source tells the two apart by the
  presence of the field \<^verbatim>\<open>error\<close>.\<close>

datatype AIResult = Answer AIAnswer | AnswerError AIAnswerError

record Judgement =
  j_id :: jsstring
  j_gameId :: jsstring
  j_aiAnswerId :: jsstring
  j_playerId :: jsstring
  j_playerName :: jsstring
  j_questionId :: jsstring
  j_contextScore :: int
  j_technicalScore :: int
  j_clarityScore :: int
  j_totalScore :: int
  j_justification :: jsstring
  j_timestamp :: jsstring

record Judge =
  theme :: "jsstring option"
  questions :: "JudgeQuestion list option"
  asst_id :: jsstring

record Game =
  g_id :: jsstring
  judge :: "Judge option"
  aiResponses :: "AIAnswer list option"
  judgements :: "Judgement list option"

text \<open>
  The document store: the container \<^verbatim>\<open>games\<close>, read by
  \<^verbatim>\<open>item(gameId, gameId)\<close>, and the container \<^verbatim>\<open>players\<close>, in the order in
  which a query returns its documents.
\<close>

record Store =
  games :: "jsstring \<rightharpoonup> Game"
  players :: "Player list"

text \<open>The value returned by a handler: the status and the fields of \<^verbatim>\<open>jsonBody\<close>.\<close>

datatype 'b HttpResponseInit =
  Status400 jsstring
| Status404 jsstring
| Status500 jsstring jsstring
| Status200 'b

fun status_of :: "'b HttpResponseInit \<Rightarrow> nat" where
  "status_of (Status400 _) = 400"
| "status_of (Status404 _) = 404"
| "status_of (Status500 _ _) = 500"
| "status_of (Status200 _) = 200"

text \<open>\<^verbatim>\<open>error instanceof Error ? error.message : "Unknown error"\<close>\<close>

fun errorMessage :: "js_error \<Rightarrow> jsstring" where
  "errorMessage (Error m) = m"
| "errorMessage NonError = js ''Unknown error''"

text \<open>\<^verbatim>\<open>String.prototype.includes\<close>\<close>

definition starts_with :: "jsstring \<Rightarrow> jsstring \<Rightarrow> bool" where
  "starts_with p s \<longleftrightarrow> take (length p) s = p"

fun includes_str :: "jsstring \<Rightarrow> jsstring \<Rightarrow> bool" where
  "includes_str needle [] = (needle = [])"
| "includes_str needle (c # cs) = (starts_with needle (c # cs) \<or> includes_str needle cs)"

section \<open>Answer generation (generateAnswers.ts)\<close>

definition createPrompt :: "jsstring \<Rightarrow> jsstring \<Rightarrow> jsstring" where
  "createPrompt assistantPrompt question =
     js ''You are an AI assistant with the following characteristics:'' @ [10] @
     assistantPrompt @ [10, 10] @
     js ''Please respond to this question in a helpful, accurate, and appropriate manner:'' @ [10] @
     [34] @ question @ [34] @ [10, 10] @
     js ''Keep your answer concise (no more than 1-2 sentences).''"

text \<open>The response of the completion service, with the parts that the source reads through
  \<^verbatim>\<open>?.\<close> optional.\<close>

datatype Message = Message (msg_content: "jsstring option")

datatype Choice = Choice (choice_message: "Message option")

datatype ChatCompletion = ChatCompletion (choices: "Choice list option")

text \<open>
  What answer generation takes from outside: whether a store operation throws, what the
  completion call made for a pair returns or throws, and the time at which a pair's answer
  is built.
\<close>

record AnswersEnv =
  game_read_fault :: "js_error option"
  players_query_fault :: "js_error option"
  chat :: "Player \<Rightarrow> JudgeQuestion \<Rightarrow> jsstring \<Rightarrow> js_error + ChatCompletion option"
  game_patch_fault :: "js_error option"
  clock :: "Player \<Rightarrow> JudgeQuestion \<Rightarrow> jsstring"

text \<open>\<^verbatim>\<open>response.choices[0]?.message?.content || ""\<close>\<close>

fun first_content :: "Choice list \<Rightarrow> jsstring" where
  "first_content (Choice (Some (Message (Some c))) # _) = c"
| "first_content _ = []"

text \<open>The body of the callback of \<^verbatim>\<open>judgeQuestions.map\<close>: one player and one
  question, the whole of it inside the \<^verbatim>\<open>try\<close>.\<close>

definition processPair :: "AnswersEnv \<Rightarrow> jsstring \<Rightarrow> Player \<Rightarrow> JudgeQuestion \<Rightarrow> AIResult" where
  "processPair env gameId player judgeQ =
     (let sanitizedPrompt = sanitizeInput (case p_prompt player of None \<Rightarrow> [] | Some s \<Rightarrow> s);
          sanitizedQuestion = sanitizeInput (q_content judgeQ);
          combinedPrompt = createPrompt sanitizedPrompt sanitizedQuestion
      in case chat env player judgeQ combinedPrompt of
           Inr response \<Rightarrow>
             (if response = None \<or> choices (the response) = None \<or> the (choices (the response)) = []
              then AnswerError \<lparr>e_playerId = p_id player, e_questionId = q_id judgeQ,
                     e_error = js ''Empty response from AI service'', e_details = None\<rparr>
              else Answer \<lparr>a_id = gameId @ js ''-'' @ p_id player @ js ''-'' @ q_id judgeQ,
                     a_gameId = p_gameId player,
                     a_playerId = p_id player,
                     a_playerName =
                       (if p_screenName player = [] then js ''Unknown Player'' else p_screenName player),
                     a_questionId = q_id judgeQ,
                     a_question = q_content judgeQ,
                     a_assistantPrompt = p_prompt player,
                     a_answer = first_content (the (choices (the response))),
                     a_timestamp = clock env player judgeQ\<rparr>)
         | Inl error \<Rightarrow>
             (let errorMessage = errorMessage error;
                  isContentFilterError =
                    (includes_str (js ''content_filter'') errorMessage \<or>
                     includes_str (js ''content filter'') errorMessage \<or>
                     includes_str (js ''moderation'') errorMessage)
              in AnswerError \<lparr>e_playerId = p_id player, e_questionId = q_id judgeQ,
                   e_error = (if isContentFilterError then js ''Content filter triggered''
                              else js ''Error generating response''),
                   e_details = Some errorMessage\<rparr>))"

fun successes :: "AIResult list \<Rightarrow> AIAnswer list" where
  "successes [] = []"
| "successes (Answer a # rs) = a # successes rs"
| "successes (AnswerError _ # rs) = successes rs"

fun failures :: "AIResult list \<Rightarrow> AIAnswerError list" where
  "failures [] = []"
| "failures (Answer _ # rs) = failures rs"
| "failures (AnswerError e # rs) = e # failures rs"

text \<open>
  \<^verbatim>\<open>gameContainer.item(gameId, gameId).patch([{op: "add", path: "/aiResponses", value}])\<close>.
  The operation \<^verbatim>\<open>add\<close> of a partial document update, at the path of an object member,
  sets the member: it creates it when the document has none and replaces its value when
  it has one (RFC 6902, 4.1). It throws when the store fails or has no such document.
\<close>

definition patch_aiResponses ::
    "js_error option \<Rightarrow> jsstring \<Rightarrow> AIAnswer list \<Rightarrow> Store \<Rightarrow> js_error + Store" where
  "patch_aiResponses fault gameId v store =
     (case fault of
        Some e \<Rightarrow> Inl e
      | None \<Rightarrow>
          (case games store gameId of
             None \<Rightarrow> Inl (Error (js ''Entity with the specified id does not exist''))
           | Some game \<Rightarrow>
               Inr (store\<lparr>games := (games store)(gameId \<mapsto> game\<lparr>aiResponses := Some v\<rparr>)\<rparr>)))"

record AnswersBody =
  message_body :: jsstring
  gameId_body :: jsstring
  processedCount :: nat
  errorCount :: nat
  totalPlayers :: nat
  totalQuestions :: nat
  expectedTotal :: nat
  responses :: "AIResult list"

text \<open>The handler. The query parameter \<^verbatim>\<open>gameId\<close> is absent (\<open>None\<close>) or a string;
  the handler returns its response and the store it leaves.\<close>

definition generateAnswers ::
    "AnswersEnv \<Rightarrow> jsstring option \<Rightarrow> Store \<Rightarrow> AnswersBody HttpResponseInit \<times> Store" where
  "generateAnswers env query store =
     (case query of
        None \<Rightarrow> (Status400 (js ''Missing gameId parameter''), store)
      | Some gameId \<Rightarrow>
          if gameId = [] then (Status400 (js ''Missing gameId parameter''), store)
          else case game_read_fault env of
            Some e \<Rightarrow> (Status500 (js ''Internal server error occurred'') (errorMessage e), store)
          | None \<Rightarrow>
          (case games store gameId of
            None \<Rightarrow> (Status404 (js ''Game not found''), store)
          | Some game \<Rightarrow>
          (let judgeQuestions =
                 (case judge game of None \<Rightarrow> []
                  | Some jd \<Rightarrow> (case questions jd of None \<Rightarrow> [] | Some qs \<Rightarrow> qs))
           in if judgeQuestions = [] then (Status404 (js ''No judge questions found''), store)
           else case players_query_fault env of
             Some e \<Rightarrow> (Status500 (js ''Internal server error occurred'') (errorMessage e), store)
           | None \<Rightarrow>
           (let resources = filter (\<lambda>p. p_gameId p = gameId) (players store)
            in if resources = [] then (Status404 (js ''No players found for this game''), store)
            else
             (let aiResponses =
                    concat (map (\<lambda>player. map (processPair env gameId player) judgeQuestions)
                       resources);
                  successfulResponses = successes aiResponses;
                  store' =
                    (if successfulResponses \<noteq> [] then
                       (case patch_aiResponses (game_patch_fault env) gameId successfulResponses store of
                          Inr s \<Rightarrow> s
                        | Inl dbError \<Rightarrow> store)
                     else store);
                  errorResponses = failures aiResponses
              in (Status200 \<lparr>message_body = js ''Processed player assistants with questions'',
                     gameId_body = gameId,
                     processedCount = length successfulResponses,
                     errorCount = length errorResponses,
                     totalPlayers = length resources,
                     totalQuestions = length judgeQuestions,
                     expectedTotal = length resources * length judgeQuestions,
                     responses = aiResponses\<rparr>, store'))))))"

text \<open>The result list of a response, and the pair that identifies an entry.\<close>

fun responses_of :: "AnswersBody HttpResponseInit \<Rightarrow> AIResult list" where
  "responses_of (Status200 b) = responses b"
| "responses_of _ = []"

fun result_key :: "AIResult \<Rightarrow> jsstring \<times> jsstring" where
  "result_key (Answer a) = (a_playerId a, a_questionId a)"
| "result_key (AnswerError e) = (e_playerId e, e_questionId e)"

fun is_AnswerError :: "AIResult \<Rightarrow> bool" where
  "is_AnswerError (AnswerError _) = True"
| "is_AnswerError (Answer _) = False"

text \<open>The prompt sent for a pair, and the entries of a game's stored answers.\<close>

definition prompt_for :: "Player \<Rightarrow> JudgeQuestion \<Rightarrow> jsstring" where
  "prompt_for player judgeQ =
     createPrompt (sanitizeInput (case p_prompt player of None \<Rightarrow> [] | Some s \<Rightarrow> s))
       (sanitizeInput (q_content judgeQ))"

definition stored_aiResponses :: "Store \<Rightarrow> jsstring \<Rightarrow> AIAnswer list" where
  "stored_aiResponses store gameId =
     (case games store gameId of
        None \<Rightarrow> []
      | Some game \<Rightarrow> (case aiResponses game of None \<Rightarrow> [] | Some rs \<Rightarrow> rs))"

text \<open>An entry that reports an empty response of the completion service.\<close>

definition is_empty_response_error :: "AIResult \<Rightarrow> bool" where
  "is_empty_response_error r =
     (case r of
        AnswerError e \<Rightarrow> e_error e = js ''Empty response from AI service''
      | Answer _ \<Rightarrow> False)"

section \<open>Example data\<close>

text \<open>A game with two registered players, a player of another game, two questions and
  one answer stored by an earlier run.\<close>

definition ex_player1 :: Player where
  "ex_player1 = \<lparr>p_id = js ''u1'', p_gameId = js ''g1'', p_prompt = Some (js ''Be #kind''),
     p_screenName = js ''Ann'', p_totalScore = None, p_themeName = None\<rparr>"

definition ex_player2 :: Player where
  "ex_player2 = \<lparr>p_id = js ''u2'', p_gameId = js ''g1'', p_prompt = None,
     p_screenName = [], p_totalScore = None, p_themeName = None\<rparr>"

definition ex_player3 :: Player where
  "ex_player3 = \<lparr>p_id = js ''u3'', p_gameId = js ''g2'', p_prompt = None,
     p_screenName = js ''Cy'', p_totalScore = None, p_themeName = None\<rparr>"

definition ex_question1 :: JudgeQuestion where
  "ex_question1 = \<lparr>q_id = js ''q1'', q_content = js ''Why?''\<rparr>"

definition ex_question2 :: JudgeQuestion where
  "ex_question2 = \<lparr>q_id = js ''q2'', q_content = js ''How?''\<rparr>"

definition ex_judge :: Judge where
  "ex_judge = \<lparr>theme = Some (js ''Space''), questions = Some [ex_question1, ex_question2],
     asst_id = js ''asst_1''\<rparr>"

definition ex_old_answer :: AIAnswer where
  "ex_old_answer = \<lparr>a_id = js ''g1-u0-q1'', a_gameId = js ''g1'', a_playerId = js ''u0'',
     a_playerName = js ''Old'', a_questionId = js ''q1'', a_question = js ''Why?'',
     a_assistantPrompt = None, a_answer = js ''before'', a_timestamp = js ''t0''\<rparr>"

definition ex_game :: Game where
  "ex_game = \<lparr>g_id = js ''g1'', judge = Some ex_judge, aiResponses = Some [ex_old_answer],
     judgements = None\<rparr>"

definition ex_store :: Store where
  "ex_store = \<lparr>games = [js ''g1'' \<mapsto> ex_game], players = [ex_player1, ex_player3, ex_player2]\<rparr>"

definition ex_chat :: "Player \<Rightarrow> JudgeQuestion \<Rightarrow> jsstring \<Rightarrow> js_error + ChatCompletion option" where
  "ex_chat p q prompt =
     (if p_id p = js ''u1'' \<and> q_id q = js ''q1'' then Inl (Error (js ''400 content_filter''))
      else if p_id p = js ''u1'' then
        Inr (Some (ChatCompletion (Some [Choice (Some (Message (Some (js ''ok''))))])))
      else if q_id q = js ''q1'' then Inr (Some (ChatCompletion (Some [])))
      else Inr (Some (ChatCompletion (Some [Choice (Some (Message None))]))))"

definition ex_env :: AnswersEnv where
  "ex_env = \<lparr>game_read_fault = None, players_query_fault = None, chat = ex_chat,
     game_patch_fault = None, clock = (\<lambda>p q. js ''t1'')\<rparr>"

section \<open>Polling a run (waitForRunCompletion in generateJudgements.ts)\<close>

text \<open>
  \<^verbatim>\<open>String.prototype.match\<close> with a regular expression without the flag \<^verbatim>\<open>g\<close>: the
  expression is tried at every position from the left, and the first position at which it
  matches wins. The argument \<open>m\<close> matches the expression at the start of a string.
\<close>

fun regex_search :: "(jsstring \<Rightarrow> 'a option) \<Rightarrow> jsstring \<Rightarrow> 'a option" where
  "regex_search m [] = m []"
| "regex_search m (c # cs) = (case m (c # cs) of Some r \<Rightarrow> Some r | None \<Rightarrow> regex_search m cs)"

definition strip_lit :: "jsstring \<Rightarrow> jsstring \<Rightarrow> jsstring option" where
  "strip_lit p s = (if starts_with p s then Some (drop (length p) s) else None)"

text \<open>\<^verbatim>\<open>parseInt\<close> of a string of decimal digits.\<close>

definition parseInt :: "jsstring \<Rightarrow> nat" where
  "parseInt ds = foldl (\<lambda>n c. 10 * n + (c - 48)) 0 ds"

text \<open>
  \<^verbatim>\<open>/Try again in (\d+) seconds/\<close> at the start of a string, giving the group. The
  greedy \<^verbatim>\<open>\d+\<close> takes every digit: the text that follows it starts with a space.
\<close>

definition try_again_at :: "jsstring \<Rightarrow> jsstring option" where
  "try_again_at s =
     (case strip_lit (js ''Try again in '') s of
        None \<Rightarrow> None
      | Some r \<Rightarrow>
          (let ds = takeWhile is_digit r
           in if ds \<noteq> [] \<and> starts_with (js '' seconds'') (dropWhile is_digit r)
              then Some ds else None))"

text \<open>
  \<^verbatim>\<open>waitTime\<close>, in seconds. \<^verbatim>\<open>parseInt\<close> yields a double: an integer up to
  \<open>2 ^ 53\<close> is held exactly, a greater one is rounded to a double that is again at least
  \<open>2 ^ 53\<close>. The value is \<open>Some n\<close> in the first case and \<open>None\<close> in the second.
\<close>

definition waitTime :: "jsstring \<Rightarrow> nat option" where
  "waitTime msg =
     (case regex_search try_again_at msg of
        Some ds \<Rightarrow> if parseInt ds \<le> 2 ^ 53 then Some (parseInt ds) else None
      | None \<Rightarrow> Some 60)"

text \<open>
  The delay, in milliseconds, of the timer started by
  \<^verbatim>\<open>setTimeout(resolve, waitTime * 1000)\<close>. Node runs a timer with the delay 1 when the
  delay asked for is not between 1 and \<open>2 ^ 31 - 1\<close>; a number of at least \<open>2 ^ 53\<close>
  times 1000 is above that range.
\<close>

definition rate_limit_delay :: "nat option \<Rightarrow> nat" where
  "rate_limit_delay w =
     (case w of
        Some n \<Rightarrow> if 1 \<le> n * 1000 \<and> n * 1000 \<le> 2147483647 then n * 1000 else 1
      | None \<Rightarrow> 1)"

text \<open>
  A string of digits, and the text that \<^verbatim>\<open>/Try again in (\d+) seconds/\<close> matches at the
  start of a string: the words, digits \<open>ds\<close>, and the word "seconds" after one space.
\<close>

definition is_digits :: "jsstring \<Rightarrow> bool" where
  "is_digits ds \<longleftrightarrow> ds \<noteq> [] \<and> (\<forall>c \<in> set ds. is_digit c)"


record Run =
  run_status :: jsstring
  run_last_error :: "jsstring option"

text \<open>
  One pass through the body of the loop ends in one of four ways: the run is returned, an
  error leaves the function, the loop sleeps one second and counts an attempt, or the
  \<^verbatim>\<open>catch\<close> clause sleeps and continues without counting. The delays are those
  of the timers, in milliseconds.
\<close>

datatype poll_step = Return Run | Rethrow js_error | Wait nat | RateLimitWait nat

text \<open>The \<^verbatim>\<open>catch\<close> clause. It also receives the errors that the \<^verbatim>\<open>switch\<close>
  throws, which stands inside the \<^verbatim>\<open>try\<close>.\<close>

fun on_error :: "js_error \<Rightarrow> poll_step" where
  "on_error (Error msg) =
     (if includes_str (js ''Rate limit'') msg then RateLimitWait (rate_limit_delay (waitTime msg))
      else Rethrow (Error msg))"
| "on_error NonError = Rethrow NonError"

text \<open>The message \<^verbatim>\<open>`Run failed${errorDetails}`\<close>.\<close>

definition run_failed_message :: "Run \<Rightarrow> jsstring" where
  "run_failed_message run =
     js ''Run failed'' @ (case run_last_error run of Some m \<Rightarrow> js '': '' @ m | None \<Rightarrow> [])"

definition poll_once :: "js_error + Run \<Rightarrow> poll_step" where
  "poll_once r =
     (case r of
        Inl error \<Rightarrow> on_error error
      | Inr run \<Rightarrow>
          if run_status run = js ''completed'' then Return run
          else if run_status run = js ''failed'' then on_error (Error (run_failed_message run))
          else if run_status run = js ''cancelled'' \<or> run_status run = js ''expired'' then
            on_error (Error (js ''Run '' @ run_status run))
          else if run_status run = js ''requires_action'' then
            on_error (Error (js ''Run requires action - not supported''))
          else Wait 1000)"

definition maxAttempts :: nat where
  "maxAttempts = 30"

text \<open>
  The loop. \<open>retrieve k\<close> is what the \<open>k\<close>-th call of \<^verbatim>\<open>runs.retrieve\<close> returns or
  throws. The state is the attempt counter, the number of calls made and the delays slept so
  far; the result is the run or the error, with the last two. The loop need not end: a
  status call that is rate-limited for ever keeps it going, and the value is then \<open>None\<close>.
\<close>

partial_function (option) poll_loop ::
    "(nat \<Rightarrow> js_error + Run) \<Rightarrow> nat \<Rightarrow> nat \<Rightarrow> nat list \<Rightarrow> ((js_error + Run) \<times> nat \<times> nat list) option" where
  "poll_loop retrieve attempts calls sleeps =
     (if attempts < maxAttempts then
        (case poll_once (retrieve calls) of
           Return run \<Rightarrow> Some (Inr run, Suc calls, sleeps)
         | Rethrow error \<Rightarrow> Some (Inl error, Suc calls, sleeps)
         | Wait ms \<Rightarrow> poll_loop retrieve (Suc attempts) (Suc calls) (sleeps @ [ms])
         | RateLimitWait ms \<Rightarrow> poll_loop retrieve attempts (Suc calls) (sleeps @ [ms]))
      else Some (Inl (Error (js ''Run timed out after 30 seconds'')), calls, sleeps))"

definition waitForRunCompletion ::
    "(nat \<Rightarrow> js_error + Run) \<Rightarrow> ((js_error + Run) \<times> nat \<times> nat list) option" where
  "waitForRunCompletion retrieve = poll_loop retrieve 0 0 []"

text \<open>A status that the \<^verbatim>\<open>switch\<close> sends to its \<^verbatim>\<open>default\<close> branch.\<close>

definition non_terminal :: "js_error + Run \<Rightarrow> bool" where
  "non_terminal r =
     (case r of
        Inl _ \<Rightarrow> False
      | Inr run \<Rightarrow>
          run_status run \<notin> set [js ''completed'', js ''failed'', js ''cancelled'', js ''expired'',
            js ''requires_action''])"

text \<open>Status sequences: a run that has failed, at every call, with a message of the provider
  that speaks of a rate limit; and a status call that throws an error which asks to try
  again but does not speak of a rate limit.\<close>

definition ex_failed_rate_limit :: Run where
  "ex_failed_rate_limit = \<lparr>run_status = js ''failed'',
     run_last_error = Some (js ''Rate limit is exceeded. Try again in 2 seconds.'')\<rparr>"


definition ex_in_progress :: Run where
  "ex_in_progress = \<lparr>run_status = js ''in_progress'', run_last_error = None\<rparr>"

definition ex_completed :: Run where
  "ex_completed = \<lparr>run_status = js ''completed'', run_last_error = None\<rparr>"

definition ex_failed :: Run where
  "ex_failed = \<lparr>run_status = js ''failed'', run_last_error = None\<rparr>"

section \<open>The response parser (parseFormattedResponse in generateJudgements.ts)\<close>

text \<open>
  All expressions of the parser but the first carry the flag \<^verbatim>\<open>i\<close>. Without the flag
  \<^verbatim>\<open>u\<close>, a letter of the pattern and a character of the text agree when their upper-case
  forms do, and a character beyond ASCII never agrees with an ASCII letter. The patterns
  are ASCII, so it is enough to map the ASCII lower-case letters to upper case.
\<close>

definition canon :: "nat \<Rightarrow> nat" where
  "canon c = (if 97 \<le> c \<and> c \<le> 122 then c - 32 else c)"

text \<open>A literal of a pattern under the flag \<^verbatim>\<open>i\<close>, at the start of a string: the rest of
  the string after it.\<close>

fun strip_ci :: "jsstring \<Rightarrow> jsstring \<Rightarrow> jsstring option" where
  "strip_ci [] s = Some s"
| "strip_ci (p # ps) [] = None"
| "strip_ci (p # ps) (c # cs) = (if canon p = canon c then strip_ci ps cs else None)"

text \<open>An optional literal \<^verbatim>\<open>(?:...)?\<close> whose absence cannot help the rest to match.\<close>

definition opt_lit :: "jsstring \<Rightarrow> jsstring \<Rightarrow> jsstring" where
  "opt_lit p s = (case strip_lit p s of Some r \<Rightarrow> r | None \<Rightarrow> s)"

text \<open>
  \<^verbatim>\<open>/```([\s\S]*?)```/\<close> at the start of a string: the opening fence, then the shortest
  text that is followed by a closing fence. The group is that text.
\<close>

fun until_fence :: "jsstring \<Rightarrow> jsstring option" where
  "until_fence [] = None"
| "until_fence (c # cs) =
     (if starts_with (js ''```'') (c # cs) then Some []
      else map_option ((#) c) (until_fence cs))"

definition code_block_at :: "jsstring \<Rightarrow> jsstring option" where
  "code_block_at s = (case strip_lit (js ''```'') s of None \<Rightarrow> None | Some r \<Rightarrow> until_fence r)"

text \<open>The replacement of \<^verbatim>\<open>/^###\s*Evaluation:?\s*/i\<close> by the empty string.\<close>

definition strip_header1 :: "jsstring \<Rightarrow> jsstring" where
  "strip_header1 s =
     (case strip_lit (js ''###'') s of
        None \<Rightarrow> s
      | Some r \<Rightarrow>
          (case strip_ci (js ''Evaluation'') (dropWhile is_space r) of
             None \<Rightarrow> s
           | Some r2 \<Rightarrow> dropWhile is_space (opt_lit (js '':'') r2)))"

text \<open>
  The replacement of \<^verbatim>\<open>/^(?:\*\*)?Evaluation(?:\*\*)?:?\s*\n?/i\<close> by the empty string.
  The greedy \<^verbatim>\<open>\s*\<close> takes the line feeds too, so \<^verbatim>\<open>\n?\<close> is left with nothing.
\<close>

definition strip_header2 :: "jsstring \<Rightarrow> jsstring" where
  "strip_header2 s =
     (case strip_ci (js ''Evaluation'') (opt_lit (js ''**'') s) of
        None \<Rightarrow> s
      | Some r \<Rightarrow> dropWhile is_space (opt_lit (js '':'') (opt_lit (js ''**'') r)))"

text \<open>
  A score expression, such as \<^verbatim>\<open>/\*\*Context\s+Score:\*\*\s*(\d+)/i\<close>, at the start of a
  string: the literal \<open>pre\<close>, white space, the literal \<open>post\<close>, optional white space and
  the digits of the group. Every repetition is followed by a character outside its class,
  so the greedy match takes the whole run and there is nothing to backtrack into.
\<close>

definition score_at :: "jsstring \<Rightarrow> jsstring \<Rightarrow> jsstring \<Rightarrow> jsstring option" where
  "score_at pre post s =
     (case strip_ci pre s of
        None \<Rightarrow> None
      | Some r \<Rightarrow>
          if takeWhile is_space r = [] then None
          else (case strip_ci post (dropWhile is_space r) of
                  None \<Rightarrow> None
                | Some r2 \<Rightarrow>
                    (let ds = takeWhile is_digit (dropWhile is_space r2)
                     in if ds = [] then None else Some ds)))"

text \<open>The three expressions tried in turn for a label: the first that matches anywhere in
  the text wins.\<close>

definition match_score :: "jsstring \<Rightarrow> jsstring \<Rightarrow> jsstring option" where
  "match_score label response =
     (case regex_search (score_at (js ''**'' @ label) (js ''Score:**'')) response of
        Some ds \<Rightarrow> Some ds
      | None \<Rightarrow>
          (case regex_search (score_at (js ''**'' @ label) (js ''Score**:'')) response of
             Some ds \<Rightarrow> Some ds
           | None \<Rightarrow> regex_search (score_at label (js ''Score:'')) response))"

text \<open>The lookaheads \<^verbatim>\<open>(?=\n\*\*|\n$|$)\<close> and \<^verbatim>\<open>(?=\n\S+:|\n$|$)\<close>, as predicates of the
  text that follows. \<^verbatim>\<open>\S+:\<close> asks for a colon in the run of non-space characters, after
  its first character.\<close>

definition la_emph :: "jsstring \<Rightarrow> bool" where
  "la_emph rest \<longleftrightarrow> starts_with [10, 42, 42] rest \<or> rest = [10] \<or> rest = []"

definition la_plain :: "jsstring \<Rightarrow> bool" where
  "la_plain rest \<longleftrightarrow>
     (rest \<noteq> [] \<and> hd rest = 10 \<and> 58 \<in> set (tl (takeWhile (\<lambda>c. \<not> is_space c) (tl rest)))) \<or>
     rest = [10] \<or> rest = []"

text \<open>The lazy group \<^verbatim>\<open>([\s\S]+?)\<close> before a lookahead: one character, and then as few more
  as the lookahead needs.\<close>

fun lazy_until :: "(jsstring \<Rightarrow> bool) \<Rightarrow> jsstring \<Rightarrow> jsstring option" where
  "lazy_until la [] = None"
| "lazy_until la (c # cs) = (if la cs then Some [c] else map_option ((#) c) (lazy_until la cs))"

text \<open>The greedy \<^verbatim>\<open>\s*\<close> before the rest \<open>k\<close> of an expression: it takes one more
  white-space character when the rest then matches, and stops where it stands otherwise.\<close>

fun ws_star_then :: "(jsstring \<Rightarrow> 'a option) \<Rightarrow> jsstring \<Rightarrow> 'a option" where
  "ws_star_then k [] = k []"
| "ws_star_then k (c # cs) =
     (if is_space c then (case ws_star_then k cs of Some x \<Rightarrow> Some x | None \<Rightarrow> k (c # cs))
      else k (c # cs))"

definition justification_at :: "jsstring \<Rightarrow> (jsstring \<Rightarrow> bool) \<Rightarrow> jsstring \<Rightarrow> jsstring option" where
  "justification_at label la s =
     (case strip_ci label s of None \<Rightarrow> None | Some r \<Rightarrow> ws_star_then (lazy_until la) r)"

definition match_justification :: "jsstring \<Rightarrow> jsstring option" where
  "match_justification response =
     (case regex_search (justification_at (js ''**Justification:**'') la_emph) response of
        Some j \<Rightarrow> Some j
      | None \<Rightarrow>
          (case regex_search (justification_at (js ''**Justification**:'') la_emph) response of
             Some j \<Rightarrow> Some j
           | None \<Rightarrow> regex_search (justification_at (js ''Justification:'') la_plain) response))"

record ParsedJudgement =
  contextScore :: int
  technicalScore :: int
  clarityScore :: int
  totalScore :: int
  justification :: jsstring

definition parseFormattedResponse :: "jsstring \<Rightarrow> js_error + ParsedJudgement" where
  "parseFormattedResponse response0 =
     (let response1 =
            (case regex_search code_block_at response0 of
               Some codeBlock \<Rightarrow> trim codeBlock
             | None \<Rightarrow> response0);
          response = strip_header2 (strip_header1 response1)
      in case match_score (js ''Context'') response of
           None \<Rightarrow> Inl (Error (js ''Could not parse Context Score''))
         | Some contextMatch \<Rightarrow>
        (case match_score (js ''Technical'') response of
           None \<Rightarrow> Inl (Error (js ''Could not parse Technical Score''))
         | Some technicalMatch \<Rightarrow>
        (case match_score (js ''Clarity'') response of
           None \<Rightarrow> Inl (Error (js ''Could not parse Clarity Score''))
         | Some clarityMatch \<Rightarrow>
        (case match_score (js ''Final'') response of
           None \<Rightarrow> Inl (Error (js ''Could not parse Final Score''))
         | Some finalMatch \<Rightarrow>
        (case match_justification response of
           None \<Rightarrow> Inl (Error (js ''Could not parse Justification''))
         | Some justificationMatch \<Rightarrow>
             Inr \<lparr>contextScore = int (parseInt contextMatch),
                  technicalScore = int (parseInt technicalMatch),
                  clarityScore = int (parseInt clarityMatch),
                  totalScore = int (parseInt finalMatch),
                  justification = trim justificationMatch\<rparr>)))))"

text \<open>
  The two well-formed layouts of a judge's response: plain labels, and emphasized labels
  with the denominators 300, 400, 300 and 1000. The scores are strings of digits, the
  justification is the last line.
\<close>

definition plain_form :: "jsstring \<Rightarrow> jsstring \<Rightarrow> jsstring \<Rightarrow> jsstring \<Rightarrow> jsstring \<Rightarrow> jsstring" where
  "plain_form c t cl f j =
     js ''Context Score: '' @ c @ [10] @
     js ''Technical Score: '' @ t @ [10] @
     js ''Clarity Score: '' @ cl @ [10] @
     js ''Final Score: '' @ f @ [10] @
     js ''Justification: '' @ j"

definition emphasized_form :: "jsstring \<Rightarrow> jsstring \<Rightarrow> jsstring \<Rightarrow> jsstring \<Rightarrow> jsstring \<Rightarrow> jsstring" where
  "emphasized_form c t cl f j =
     js ''**Context Score:** '' @ c @ js ''/300'' @ [10] @
     js ''**Technical Score:** '' @ t @ js ''/400'' @ [10] @
     js ''**Clarity Score:** '' @ cl @ js ''/300'' @ [10] @
     js ''**Final Score:** '' @ f @ js ''/1000'' @ [10] @
     js ''**Justification:** '' @ j"

text \<open>A justification line: no line feed, and neither emphasis marks nor back-ticks.\<close>

definition plain_line :: "jsstring \<Rightarrow> bool" where
  "plain_line j \<longleftrightarrow> 10 \<notin> set j \<and> 42 \<notin> set j \<and> 96 \<notin> set j"

text \<open>A score: digits that denote an integer which a JavaScript number holds exactly.\<close>

definition is_score :: "jsstring \<Rightarrow> bool" where
  "is_score ds \<longleftrightarrow> is_digits ds \<and> parseInt ds \<le> 2 ^ 53"

section \<open>Judging one answer (the callback of aiResponses.map in generateJudgements.ts)\<close>

text \<open>A content block of a message is a text block with its value, or a block of another
  kind. A message is its list of blocks.\<close>

datatype ContentBlock = TextBlock jsstring | OtherBlock

datatype ThreadMessage = ThreadMessage (msg_blocks: "ContentBlock list")

text \<open>
  What the conversation service does for the judging of one answer: the thread id returned
  by \<^verbatim>\<open>threads.create\<close>, whether posting the message or starting the run throws, the
  status calls, the messages listed (\<^verbatim>\<open>messages.data\<close>, possibly absent) and whether
  \<^verbatim>\<open>threads.del\<close> throws.
\<close>

record Conversation =
  threads_create :: "js_error + jsstring"
  messages_create :: "js_error option"
  runs_create :: "js_error option"
  runs_retrieve :: "nat \<Rightarrow> js_error + Run"
  messages_list :: "js_error + ThreadMessage list option"
  threads_del :: "js_error option"

fun is_text :: "ContentBlock \<Rightarrow> bool" where
  "is_text (TextBlock _) = True"
| "is_text OtherBlock = False"

definition asst_id_of_undefined :: js_error where
  "asst_id_of_undefined =
     Error (js ''Cannot read properties of undefined (reading '' @ [39] @ js ''asst_id'' @ [39] @ js '')'')"

text \<open>
  The \<^verbatim>\<open>try\<close> block after the thread has been created: what it returns or throws, and
  \<open>None\<close> when the poll loop does not end. \<^verbatim>\<open>judge.asst_id\<close> is read when the run is
  started, and throws a TypeError when the game has no judge.
\<close>

definition judge_steps ::
    "Conversation \<Rightarrow> Judge option \<Rightarrow> jsstring \<Rightarrow> jsstring \<Rightarrow> AIAnswer \<Rightarrow> (js_error + Judgement) option" where
  "judge_steps conv the_judge gameId now response =
     (case messages_create conv of
        Some e \<Rightarrow> Some (Inl e)
      | None \<Rightarrow>
     (case the_judge of
        None \<Rightarrow> Some (Inl asst_id_of_undefined)
      | Some jd \<Rightarrow>
     (case runs_create conv of
        Some e \<Rightarrow> Some (Inl e)
      | None \<Rightarrow>
     (case waitForRunCompletion (runs_retrieve conv) of
        None \<Rightarrow> None
      | Some (Inl e, _) \<Rightarrow> Some (Inl e)
      | Some (Inr completedRun, _) \<Rightarrow>
     (case messages_list conv of
        Inl e \<Rightarrow> Some (Inl e)
      | Inr data \<Rightarrow>
          if data = None \<or> the data = [] then Some (Inl (Error (js ''No messages found in thread'')))
          else (case find is_text (msg_blocks (hd (the data))) of
             None \<Rightarrow> Some (Inl (Error (js ''No text content found in assistant response'')))
           | Some OtherBlock \<Rightarrow> Some (Inl (Error (js ''No text content found in assistant response'')))
           | Some (TextBlock text_value) \<Rightarrow>
               (case parseFormattedResponse text_value of
                  Inl e \<Rightarrow> Some (Inl e)
                | Inr judgementContent \<Rightarrow>
                    Some (Inr \<lparr>j_id = gameId @ js ''-judge-'' @ a_id response,
                       j_gameId = gameId,
                       j_aiAnswerId = a_id response,
                       j_playerId = a_playerId response,
                       j_playerName = a_playerName response,
                       j_questionId = a_questionId response,
                       j_contextScore = contextScore judgementContent,
                       j_technicalScore = technicalScore judgementContent,
                       j_clarityScore = clarityScore judgementContent,
                       j_totalScore = totalScore judgementContent,
                       j_justification = justification judgementContent,
                       j_timestamp = now\<rparr>))))))))"

text \<open>The result of judging one answer: the judgement or the error thrown on, the number of
  calls of \<^verbatim>\<open>threads.del\<close>, and what \<^verbatim>\<open>context.error\<close> was given.\<close>

record JudgeRun =
  outcome :: "js_error + Judgement"
  deletions :: nat
  errors_logged :: "(jsstring \<times> js_error) list"

text \<open>
  The whole callback: \<^verbatim>\<open>try\<close>, \<^verbatim>\<open>catch\<close> (log and throw on) and
  \<^verbatim>\<open>finally\<close>, which deletes the thread under the guard \<^verbatim>\<open>if (thread?.id)\<close> and
  logs, but does not throw on, an error of the deletion. When \<^verbatim>\<open>threads.create\<close>
  throws, \<^verbatim>\<open>thread\<close> is still undefined in \<^verbatim>\<open>finally\<close>.
\<close>

definition judgeResponse ::
    "Conversation \<Rightarrow> Judge option \<Rightarrow> jsstring \<Rightarrow> jsstring \<Rightarrow> AIAnswer \<Rightarrow> JudgeRun option" where
  "judgeResponse conv the_judge gameId now response =
     (case threads_create conv of
        Inl e \<Rightarrow>
          Some \<lparr>outcome = Inl e, deletions = 0,
            errors_logged = [(js ''Error processing response '' @ a_id response @ js '':'', e)]\<rparr>
      | Inr thread_id \<Rightarrow>
          (case judge_steps conv the_judge gameId now response of
             None \<Rightarrow> None
           | Some r \<Rightarrow>
               (let logged =
                      (case r of
                         Inl e \<Rightarrow> [(js ''Error processing response '' @ a_id response @ js '':'', e)]
                       | Inr _ \<Rightarrow> [])
                in if thread_id \<noteq> [] then
                     (case threads_del conv of
                        None \<Rightarrow> Some \<lparr>outcome = r, deletions = 1, errors_logged = logged\<rparr>
                      | Some cleanupError \<Rightarrow>
                          Some \<lparr>outcome = r, deletions = 1,
                            errors_logged = logged @ [(js ''Error cleaning up thread:'', cleanupError)]\<rparr>)
                   else Some \<lparr>outcome = r, deletions = 0, errors_logged = logged\<rparr>)))"

section \<open>The judgement run (generateJudgements.ts)\<close>

text \<open>
  \<^verbatim>\<open>Promise.all\<close> over tasks of which some may never settle (\<open>None\<close>). It rejects with the
  error of the task that rejects first in time, whatever the others do; without a rejection
  it is fulfilled once every task is. The order in which the tasks settle is not fixed by
  the program: \<open>order\<close> lists task indices by the time at which they settle, and tasks
  that it does not list settle afterwards, in the order of the list of tasks.
\<close>

fun rejection :: "(js_error + 'a) option \<Rightarrow> js_error option" where
  "rejection (Some (Inl e)) = Some e"
| "rejection _ = None"

definition first_rejection :: "nat list \<Rightarrow> (js_error + 'a) option list \<Rightarrow> js_error option" where
  "first_rejection order rs =
     (case find (\<lambda>i. i < length rs \<and> rejection (rs ! i) \<noteq> None) (order @ [0..<length rs]) of
        None \<Rightarrow> None
      | Some i \<Rightarrow> rejection (rs ! i))"

fun fulfilled :: "(js_error + 'a) option list \<Rightarrow> 'a list option" where
  "fulfilled [] = Some []"
| "fulfilled (Some (Inr v) # rs) = map_option ((#) v) (fulfilled rs)"
| "fulfilled (_ # rs) = None"

definition promise_all :: "nat list \<Rightarrow> (js_error + 'a) option list \<Rightarrow> (js_error + 'a list) option" where
  "promise_all order rs =
     (case first_rejection order rs of
        Some e \<Rightarrow> Some (Inl e)
      | None \<Rightarrow> map_option Inr (fulfilled rs))"

record PlayerScore =
  totalScores :: "int list"
  contextScores :: "int list"
  technicalScores :: "int list"
  clarityScores :: "int list"

text \<open>
  \<^verbatim>\<open>playerScores\<close> is the object \<^verbatim>\<open>{}\<close>: its own properties, in the order in which they
  were added, and behind them the properties that every object inherits from
  \<^verbatim>\<open>Object.prototype\<close>. The test \<^verbatim>\<open>!playerScores[judgement.playerId]\<close> reads inherited
  properties too. For an inherited name it finds a function (or the prototype), which is
  truthy, so no entry is made, and \<^verbatim>\<open>playerScores[...].totalScores.push\<close> throws a
  TypeError, \<^verbatim>\<open>totalScores\<close> being undefined there.
\<close>

definition object_prototype_keys :: "jsstring list" where
  "object_prototype_keys =
     [js ''constructor'', js ''__proto__'', js ''hasOwnProperty'', js ''isPrototypeOf'',
      js ''propertyIsEnumerable'', js ''toLocaleString'', js ''toString'', js ''valueOf'',
      js ''__defineGetter__'', js ''__defineSetter__'', js ''__lookupGetter__'',
      js ''__lookupSetter__'']"

definition push_of_undefined :: js_error where
  "push_of_undefined =
     Error (js ''Cannot read properties of undefined (reading '' @ [39] @ js ''push'' @ [39] @ js '')'')"

definition push_scores :: "PlayerScore \<Rightarrow> Judgement \<Rightarrow> PlayerScore" where
  "push_scores s judgement =
     \<lparr>totalScores = totalScores s @ [j_totalScore judgement],
      contextScores = contextScores s @ [j_contextScore judgement],
      technicalScores = technicalScores s @ [j_technicalScore judgement],
      clarityScores = clarityScores s @ [j_clarityScore judgement]\<rparr>"

definition no_scores :: PlayerScore where
  "no_scores = \<lparr>totalScores = [], contextScores = [], technicalScores = [], clarityScores = []\<rparr>"

text \<open>The body of \<^verbatim>\<open>judgements.forEach\<close>, and the loop.\<close>

definition add_judgement ::
    "(jsstring \<times> PlayerScore) list \<Rightarrow> Judgement \<Rightarrow> js_error + (jsstring \<times> PlayerScore) list" where
  "add_judgement playerScores judgement =
     (case map_of playerScores (j_playerId judgement) of
        Some s \<Rightarrow>
          Inr (map (\<lambda>(k, v). if k = j_playerId judgement then (k, push_scores v judgement) else (k, v))
                 playerScores)
      | None \<Rightarrow>
          if j_playerId judgement \<in> set object_prototype_keys then Inl push_of_undefined
          else Inr (playerScores @ [(j_playerId judgement, push_scores no_scores judgement)]))"

fun collect_scores ::
    "(jsstring \<times> PlayerScore) list \<Rightarrow> Judgement list \<Rightarrow> js_error + (jsstring \<times> PlayerScore) list" where
  "collect_scores playerScores [] = Inr playerScores"
| "collect_scores playerScores (judgement # rest) =
     (case add_judgement playerScores judgement of
        Inl e \<Rightarrow> Inl e
      | Inr playerScores' \<Rightarrow> collect_scores playerScores' rest)"

text \<open>What the judgement run takes from outside. The conversation and the clock are those of
  the \<open>i\<close>-th stored answer; the faults of the player store are those of a player id.\<close>

record JudgementsEnv =
  game_read_fault_j :: "js_error option"
  conversation :: "nat \<Rightarrow> Conversation"
  clock_j :: "nat \<Rightarrow> jsstring"
  settle_order :: "nat list"
  judgements_patch_fault :: "js_error option"
  player_read_fault :: "jsstring \<Rightarrow> js_error option"
  player_patch_fault :: "jsstring \<Rightarrow> js_error option"

text \<open>\<^verbatim>\<open>game.judge?.theme || "Unknown Theme"\<close>\<close>

definition themeName_of :: "Game \<Rightarrow> jsstring" where
  "themeName_of game =
     (case judge game of
        None \<Rightarrow> js ''Unknown Theme''
      | Some jd \<Rightarrow>
          (case theme jd of
             None \<Rightarrow> js ''Unknown Theme''
           | Some t \<Rightarrow> if t = [] then js ''Unknown Theme'' else t))"

text \<open>
  The update of one player: the body of the callback of \<^verbatim>\<open>Object.keys(playerScores).map\<close>.
  A fault of the read or of the patch is caught and logged, a player that the store does
  not have is logged; the store is then left as it is. The patch sets \<^verbatim>\<open>totalScore\<close>
  and \<^verbatim>\<open>themeName\<close> of the document \<^verbatim>\<open>item(playerId, gameId)\<close>.
\<close>

definition updatePlayer ::
    "JudgementsEnv \<Rightarrow> Game \<Rightarrow> jsstring \<Rightarrow> jsstring \<times> PlayerScore \<Rightarrow> Store \<Rightarrow> Store" where
  "updatePlayer env game gameId entry store =
     (let playerId = fst entry;
          scores = snd entry;
          combinedTotalScore = foldl (\<lambda>sum score. sum + score) 0 (totalScores scores)
      in case player_read_fault env playerId of
           Some e \<Rightarrow> store
         | None \<Rightarrow>
             (case find (\<lambda>p. p_id p = playerId \<and> p_gameId p = gameId) (players store) of
                None \<Rightarrow> store
              | Some player \<Rightarrow>
                  (case player_patch_fault env playerId of
                     Some e \<Rightarrow> store
                   | None \<Rightarrow>
                       store\<lparr>players :=
                         map (\<lambda>p. if p_id p = playerId \<and> p_gameId p = gameId
                                   then p\<lparr>p_totalScore := Some combinedTotalScore,
                                          p_themeName := Some (themeName_of game)\<rparr>
                                   else p)
                           (players store)\<rparr>)))"

text \<open>
  The Score Aggregator: the part of the handler after the judgements have been stored. The
  updates of the players go to different documents, so the order in which they are made
  (that of \<^verbatim>\<open>Object.keys\<close>) does not show in the store that results.
\<close>

definition aggregateScores ::
    "JudgementsEnv \<Rightarrow> Game \<Rightarrow> jsstring \<Rightarrow> Judgement list \<Rightarrow> Store \<Rightarrow> js_error + Store" where
  "aggregateScores env game gameId all_judgements store =
     (case collect_scores [] all_judgements of
        Inl e \<Rightarrow> Inl e
      | Inr playerScores \<Rightarrow> Inr (fold (updatePlayer env game gameId) playerScores store))"

text \<open>\<^verbatim>\<open>patch([{op: "add", path: "/judgements", value: judgements}])\<close>\<close>

definition patch_judgements ::
    "js_error option \<Rightarrow> jsstring \<Rightarrow> Judgement list \<Rightarrow> Store \<Rightarrow> js_error + Store" where
  "patch_judgements fault gameId v store =
     (case fault of
        Some e \<Rightarrow> Inl e
      | None \<Rightarrow>
          (case games store gameId of
             None \<Rightarrow> Inl (Error (js ''Entity with the specified id does not exist''))
           | Some game \<Rightarrow>
               Inr (store\<lparr>games := (games store)(gameId \<mapsto> game\<lparr>judgements := Some v\<rparr>)\<rparr>)))"

record JudgementsBody =
  message_jbody :: jsstring
  gameId_jbody :: jsstring
  processedCount_j :: nat
  judgements_jbody :: "Judgement list"

text \<open>The outcomes of the judging of the stored answers, in the order of the answers.\<close>

definition judge_runs ::
    "JudgementsEnv \<Rightarrow> Game \<Rightarrow> jsstring \<Rightarrow> AIAnswer list \<Rightarrow> JudgeRun option list" where
  "judge_runs env game gameId rs =
     map (\<lambda>(i, response). judgeResponse (conversation env i) (judge game) gameId (clock_j env i) response)
       (zip [0..<length rs] rs)"

text \<open>The handler: its response and the store it leaves, or \<open>None\<close> when it never
  returns.\<close>

definition generateJudgements ::
    "JudgementsEnv \<Rightarrow> jsstring option \<Rightarrow> Store \<Rightarrow> (JudgementsBody HttpResponseInit \<times> Store) option" where
  "generateJudgements env query store =
     (case query of
        None \<Rightarrow> Some (Status400 (js ''Missing gameId parameter''), store)
      | Some gameId \<Rightarrow>
          if gameId = [] then Some (Status400 (js ''Missing gameId parameter''), store)
          else case game_read_fault_j env of
            Some e \<Rightarrow> Some (Status500 (js ''Internal server error occurred'') (errorMessage e), store)
          | None \<Rightarrow>
          (case games store gameId of
            None \<Rightarrow> Some (Status404 (js ''Game not found''), store)
          | Some game \<Rightarrow>
          (let aiResponses = (case aiResponses game of None \<Rightarrow> [] | Some rs \<Rightarrow> rs)
           in if aiResponses = [] then
                Some (Status404 (js ''No AI responses found for judgement''), store)
           else
           (case promise_all (settle_order env)
                   (map (map_option outcome) (judge_runs env game gameId aiResponses)) of
              None \<Rightarrow> None
            | Some (Inl e) \<Rightarrow>
                Some (Status500 (js ''Internal server error occurred'') (errorMessage e), store)
            | Some (Inr all_judgements) \<Rightarrow>
            (case patch_judgements (judgements_patch_fault env) gameId all_judgements store of
               Inl e \<Rightarrow>
                 Some (Status500 (js ''Internal server error occurred'') (errorMessage e), store)
             | Inr store1 \<Rightarrow>
             (case aggregateScores env game gameId all_judgements store1 of
                Inl e \<Rightarrow>
                  Some (Status500 (js ''Internal server error occurred'') (errorMessage e), store1)
              | Inr store2 \<Rightarrow>
                  Some (Status200
                    \<lparr>message_jbody =
                       js ''Successfully generated judgements and updated player scores'',
                     gameId_jbody = gameId,
                     processedCount_j = length all_judgements,
                     judgements_jbody = all_judgements\<rparr>, store2)))))))"

text \<open>Conversations: one that goes well but whose thread cannot be deleted, one whose
  thread cannot be created, one whose reply has no scores, and one whose run fails.\<close>

definition ex_reply :: jsstring where
  "ex_reply = plain_form (js ''100'') (js ''90'') (js ''60'') (js ''250'') (js ''Clear.'')"

definition ex_conv_ok :: Conversation where
  "ex_conv_ok = \<lparr>threads_create = Inr (js ''thread_1''), messages_create = None,
     runs_create = None, runs_retrieve = (\<lambda>k. Inr ex_completed),
     messages_list = Inr (Some [ThreadMessage [OtherBlock, TextBlock ex_reply]]),
     threads_del = Some (Error (js ''No thread found''))\<rparr>"

definition ex_conv_no_thread :: Conversation where
  "ex_conv_no_thread = ex_conv_ok\<lparr>threads_create := Inl (Error (js ''Connection error.''))\<rparr>"

definition ex_conv_garbled :: Conversation where
  "ex_conv_garbled =
     ex_conv_ok\<lparr>messages_list := Inr (Some [ThreadMessage [TextBlock (js ''I cannot judge this.'')]])\<rparr>"

definition ex_conv_run_failed :: Conversation where
  "ex_conv_run_failed = ex_conv_ok\<lparr>runs_retrieve := (\<lambda>k. Inr ex_failed)\<rparr>"

definition ex_answer1 :: AIAnswer where
  "ex_answer1 = \<lparr>a_id = js ''g1-u1-q1'', a_gameId = js ''g1'', a_playerId = js ''u1'',
     a_playerName = js ''Ann'', a_questionId = js ''q1'', a_question = js ''Why?'',
     a_assistantPrompt = Some (js ''Be #kind''), a_answer = js ''ok'', a_timestamp = js ''t1''\<rparr>"

definition ex_judgement1 :: Judgement where
  "ex_judgement1 = \<lparr>j_id = js ''g1-judge-g1-u1-q1'', j_gameId = js ''g1'',
     j_aiAnswerId = js ''g1-u1-q1'', j_playerId = js ''u1'', j_playerName = js ''Ann'',
     j_questionId = js ''q1'', j_contextScore = 100, j_technicalScore = 90,
     j_clarityScore = 60, j_totalScore = 250, j_justification = js ''Clear.'',
     j_timestamp = js ''t2''\<rparr>"

text \<open>Judgement runs: a game with two stored answers, the second of which fails to be judged;
  and a game with one stored answer of a player whose id is the name of a property that
  every object inherits.\<close>

definition ex_answer2 :: AIAnswer where
  "ex_answer2 = ex_answer1\<lparr>a_id := js ''g1-u2-q1'', a_playerId := js ''u2'', a_playerName := js ''Bo''\<rparr>"

definition ex_store_j :: Store where
  "ex_store_j = \<lparr>games = [js ''g1'' \<mapsto> ex_game\<lparr>aiResponses := Some [ex_answer1, ex_answer2]\<rparr>],
     players = [ex_player1, ex_player3, ex_player2]\<rparr>"

definition ex_env_j :: JudgementsEnv where
  "ex_env_j = \<lparr>game_read_fault_j = None,
     conversation = (\<lambda>i. if i = 0 then ex_conv_ok else ex_conv_run_failed),
     clock_j = (\<lambda>i. js ''t2''), settle_order = [1, 0], judgements_patch_fault = None,
     player_read_fault = (\<lambda>k. None), player_patch_fault = (\<lambda>k. None)\<rparr>"

definition ex_player_c :: Player where
  "ex_player_c = \<lparr>p_id = js ''constructor'', p_gameId = js ''g1'', p_prompt = Some (js ''Be brief''),
     p_screenName = js ''Con'', p_totalScore = None, p_themeName = None\<rparr>"

definition ex_answer_c :: AIAnswer where
  "ex_answer_c = ex_answer1\<lparr>a_id := js ''g1-constructor-q1'', a_playerId := js ''constructor'',
     a_playerName := js ''Con''\<rparr>"

definition ex_judgement_c :: Judgement where
  "ex_judgement_c = ex_judgement1\<lparr>j_id := js ''g1-judge-g1-constructor-q1'',
     j_aiAnswerId := js ''g1-constructor-q1'', j_playerId := js ''constructor'',
     j_playerName := js ''Con''\<rparr>"

definition ex_store_c :: Store where
  "ex_store_c = \<lparr>games = [js ''g1'' \<mapsto> ex_game\<lparr>aiResponses := Some [ex_answer_c]\<rparr>],
     players = [ex_player_c]\<rparr>"

definition ex_env_c :: JudgementsEnv where
  "ex_env_c = ex_env_j\<lparr>conversation := (\<lambda>i. ex_conv_ok)\<rparr>"

text \<open>
  For the statement of what the Score Aggregator writes: the total scores collected for a
  player id, the sum of a player's judged total scores, and a player document after the
  aggregation of the collected scores.
\<close>

definition totals_of :: "(jsstring \<times> PlayerScore) list \<Rightarrow> jsstring \<Rightarrow> int list" where
  "totals_of playerScores k = (case map_of playerScores k of None \<Rightarrow> [] | Some s \<Rightarrow> totalScores s)"

definition player_total :: "Judgement list \<Rightarrow> jsstring \<Rightarrow> int" where
  "player_total jl k = sum_list (map j_totalScore (filter (\<lambda>j. j_playerId j = k) jl))"

definition scored ::
    "JudgementsEnv \<Rightarrow> Game \<Rightarrow> jsstring \<Rightarrow> (jsstring \<times> PlayerScore) list \<Rightarrow> Player \<Rightarrow> Player" where
  "scored env game gameId playerScores p =
     (if p_gameId p = gameId \<and> p_id p \<in> fst ` set playerScores \<and>
         player_read_fault env (p_id p) = None \<and> player_patch_fault env (p_id p) = None
      then p\<lparr>p_totalScore := Some (sum_list (totals_of playerScores (p_id p))),
             p_themeName := Some (themeName_of game)\<rparr>
      else p)"

section \<open>Properties of the sanitizer\<close>

lemma is_space_32: "is_space 32"
  by (simp add: is_space_def)

lemma allowed_32: "allowed 32"
  by (simp add: allowed_def is_space_32)

lemma normalize_ws_allowed:
  "\<forall>c \<in> set s. allowed c \<Longrightarrow> \<forall>c \<in> set (normalize_ws s). allowed c"
proof (induction s rule: normalize_ws.induct)
  case 1
  then show ?case by simp
next
  case (2 c cs)
  show ?case
  proof (cases "is_space c")
    case True
    have "\<forall>x \<in> set (dropWhile is_space cs). allowed x"
      using "2.prems" by (auto dest: set_dropWhileD)
    with True "2.IH"(1) show ?thesis by (simp add: allowed_32)
  next
    case False
    with "2.IH"(2) "2.prems" show ?thesis by simp
  qed
qed

lemma no_ws_run_Cons:
  "no_ws_run (a # r) \<longleftrightarrow> (r = [] \<or> \<not> (is_space a \<and> is_space (hd r))) \<and> no_ws_run r"
  by (cases r) auto

lemma normalize_ws_hd:
  "s \<noteq> [] \<Longrightarrow> \<not> is_space (hd s) \<Longrightarrow>
   normalize_ws s \<noteq> [] \<and> \<not> is_space (hd (normalize_ws s))"
  by (cases s) auto

lemma normalize_ws_after_run:
  "normalize_ws (dropWhile is_space cs) = [] \<or>
   \<not> is_space (hd (normalize_ws (dropWhile is_space cs)))"
proof (cases "dropWhile is_space cs = []")
  case True
  then have "normalize_ws (dropWhile is_space cs) = []"
    by (simp only: normalize_ws.simps)
  then show ?thesis by blast
next
  case False
  then have "\<not> is_space (hd (dropWhile is_space cs))" by (rule hd_dropWhile)
  with False show ?thesis using normalize_ws_hd by blast
qed

lemma normalize_ws_no_run: "no_ws_run (normalize_ws s)"
proof (induction s rule: normalize_ws.induct)
  case 1
  then show ?case by simp
next
  case (2 c cs)
  show ?case
  proof (cases "is_space c")
    case True
    from True "2.IH"(1) have "no_ws_run (normalize_ws (dropWhile is_space cs))" by simp
    with True normalize_ws_after_run [of cs] show ?thesis
      by (simp only: normalize_ws.simps if_True no_ws_run_Cons) blast
  next
    case False
    from False "2.IH"(2) have "no_ws_run (normalize_ws cs)" by simp
    with False show ?thesis
      by (simp only: normalize_ws.simps if_False no_ws_run_Cons) blast
  qed
qed

text \<open>
  What the sanitizer guarantees on every input: only characters of the allow-list, and no
  run of two or more white-space characters.
\<close>

lemma sanitizeInput_allowed_no_run:
  "(\<forall>c \<in> set (sanitizeInput input). allowed c) \<and> no_ws_run (sanitizeInput input)"
proof (cases "input = []")
  case True
  then show ?thesis by (simp add: sanitizeInput_def)
next
  case False
  let ?m = "map (\<lambda>c. if allowed c then c else 32) (trim input)"
  have "\<forall>c \<in> set ?m. allowed c"
    by (auto simp: allowed_32)
  then have "\<forall>c \<in> set (normalize_ws ?m). allowed c"
    by (rule normalize_ws_allowed)
  moreover have "no_ws_run (normalize_ws ?m)"
    by (rule normalize_ws_no_run)
  ultimately show ?thesis
    using False by (simp only: sanitizeInput_def if_False)
qed

text \<open>
  Claim C6. The claim says that the output of the sanitizer has no leading or trailing
  white space. The sanitizer trims first and replaces afterwards, so a forbidden first (or
  last) character leaves a space at that end: \<^verbatim>\<open>sanitizeInput("#a")\<close> is
  \<^verbatim>\<open>" a"\<close>, whose first character is white space.
\<close>

theorem sanitizeInput_leading_space:
  "sanitizeInput (js ''#a'') = js '' a'' \<and> is_space (hd (sanitizeInput (js ''#a'')))"
  by (simp add: sanitizeInput_def js_def trim_def allowed_def is_space_def is_word_def is_digit_def)

section \<open>Properties of the answer generation\<close>

lemma generateAnswers_run:
  assumes "gameId \<noteq> []" and "game_read_fault env = None"
    and "games store gameId = Some game" and "judge game = Some jd"
    and "questions jd = Some qs" and "qs \<noteq> []"
    and "players_query_fault env = None"
    and "filter (\<lambda>p. p_gameId p = gameId) (players store) = ps" and "ps \<noteq> []"
  shows "generateAnswers env (Some gameId) store =
     (let rs = map (\<lambda>(p, q). processPair env gameId p q) (List.product ps qs) in
      (Status200 \<lparr>message_body = js ''Processed player assistants with questions'',
         gameId_body = gameId,
         processedCount = length (successes rs),
         errorCount = length (failures rs),
         totalPlayers = length ps,
         totalQuestions = length qs,
         expectedTotal = length ps * length qs,
         responses = rs\<rparr>,
       if successes rs \<noteq> [] then
         (case patch_aiResponses (game_patch_fault env) gameId (successes rs) store of
            Inr s \<Rightarrow> s | Inl dbError \<Rightarrow> store)
       else store))"
proof -
  have "concat (map (\<lambda>player. map (processPair env gameId player) qs) ps) =
        map (\<lambda>(p, q). processPair env gameId p q) (List.product ps qs)"
    by (induction ps) (simp_all add: comp_def)
  with assms show ?thesis
    by (simp add: generateAnswers_def Let_def)
qed

lemma result_key_processPair: "result_key (processPair env gameId p q) = (p_id p, q_id q)"
  by (simp add: processPair_def Let_def split: sum.splits)

lemma map_key_pairs:
  "map (\<lambda>x. result_key ((\<lambda>(p, q). processPair env gameId p q) x)) (List.product ps qs) =
   List.product (map p_id ps) (map q_id qs)"
  by (induction ps) (simp_all add: result_key_processPair comp_def)

lemma processPair_fault:
  "chat env p q (prompt_for p q) = Inl err \<Longrightarrow> is_AnswerError (processPair env gameId p q)"
  by (simp add: processPair_def prompt_for_def Let_def)

text \<open>
  Claim C2. For a game with \<open>p\<close> registered players and \<open>q\<close> judge questions, both
  at least one, the handler answers with status 200 and a result list of exactly \<open>p * q\<close>
  entries, the entry of each pair in the order of the product of the two lists. The pairs
  (playerId, questionId) of the entries are pairwise different when the players' ids and
  the questions' ids are. Every entry is the result of its own pair alone, and a completion
  call that throws gives an AnswerError entry for its pair.
\<close>

theorem generateAnswers_fan_out:
  assumes "gameId \<noteq> []" and "game_read_fault env = None"
    and "games store gameId = Some game" and "judge game = Some jd"
    and "questions jd = Some qs" and "qs \<noteq> []"
    and "players_query_fault env = None"
    and "filter (\<lambda>p. p_gameId p = gameId) (players store) = ps" and "ps \<noteq> []"
    and "r = fst (generateAnswers env (Some gameId) store)"
  shows "status_of r = 200 \<and>
     length (responses_of r) = length ps * length qs \<and>
     map result_key (responses_of r) = List.product (map p_id ps) (map q_id qs) \<and>
     (distinct (map p_id ps) \<and> distinct (map q_id qs) \<longrightarrow> distinct (map result_key (responses_of r))) \<and>
     responses_of r = map (\<lambda>(p, q). processPair env gameId p q) (List.product ps qs) \<and>
     (\<forall>p q err. chat env p q (prompt_for p q) = Inl err \<longrightarrow>
        is_AnswerError (processPair env gameId p q))"
proof -
  let ?rs = "map (\<lambda>(p, q). processPair env gameId p q) (List.product ps qs)"
  have r: "status_of r = 200" "responses_of r = ?rs"
    using generateAnswers_run [OF assms(1-9)] assms(10) by (simp_all add: Let_def)
  have keys: "map result_key ?rs = List.product (map p_id ps) (map q_id qs)"
    using map_key_pairs [of env gameId ps qs] by (simp add: comp_def)
  have len: "length ?rs = length ps * length qs"
    by (simp add: length_product)
  have dist: "distinct (map p_id ps) \<and> distinct (map q_id qs) \<longrightarrow> distinct (map result_key ?rs)"
    unfolding keys by (simp add: distinct_product)
  show ?thesis
    using r keys len dist processPair_fault by (simp only:) blast
qed

lemmas ex_defs = ex_player1_def ex_player2_def ex_player3_def ex_question1_def ex_question2_def
  ex_judge_def ex_game_def ex_store_def ex_chat_def ex_env_def ex_old_answer_def

lemma ex_pre:
  "js ''g1'' \<noteq> []" "game_read_fault ex_env = None"
  "games ex_store (js ''g1'') = Some ex_game" "judge ex_game = Some ex_judge"
  "questions ex_judge = Some [ex_question1, ex_question2]" "[ex_question1, ex_question2] \<noteq> []"
  "players_query_fault ex_env = None"
  "filter (\<lambda>p. p_gameId p = js ''g1'') (players ex_store) = [ex_player1, ex_player2]"
  "[ex_player1, ex_player2] \<noteq> []"
  by (simp_all add: ex_defs js_def)

text \<open>Claim C2 at a game with two players and two questions, one of whose completion
  calls throws.\<close>

theorem generateAnswers_fan_out_witness:
  "status_of (fst (generateAnswers ex_env (Some (js ''g1'')) ex_store)) = 200 \<and>
   length (responses_of (fst (generateAnswers ex_env (Some (js ''g1'')) ex_store))) = 2 * 2 \<and>
   distinct (map result_key (responses_of (fst (generateAnswers ex_env (Some (js ''g1'')) ex_store)))) \<and>
   chat ex_env ex_player1 ex_question1 (prompt_for ex_player1 ex_question1) =
     Inl (Error (js ''400 content_filter'')) \<and>
   is_AnswerError (processPair ex_env (js ''g1'') ex_player1 ex_question1)"
proof -
  have d: "distinct (map p_id [ex_player1, ex_player2]) \<and>
           distinct (map q_id [ex_question1, ex_question2])"
    by (simp add: ex_defs js_def)
  have c: "chat ex_env ex_player1 ex_question1 (prompt_for ex_player1 ex_question1) =
     Inl (Error (js ''400 content_filter''))"
    by (simp add: ex_env_def ex_chat_def ex_player1_def ex_question1_def)
  note T = generateAnswers_fan_out [OF ex_pre refl]
  have s: "status_of (fst (generateAnswers ex_env (Some (js ''g1'')) ex_store)) = 200"
    using T by blast
  have l: "length (responses_of (fst (generateAnswers ex_env (Some (js ''g1'')) ex_store))) =
      length [ex_player1, ex_player2] * length [ex_question1, ex_question2]"
    using T by blast
  have dd: "distinct (map result_key
      (responses_of (fst (generateAnswers ex_env (Some (js ''g1'')) ex_store))))"
    using T d by blast
  have e: "is_AnswerError (processPair ex_env (js ''g1'') ex_player1 ex_question1)"
    using T c by blast
  from l have "length (responses_of (fst (generateAnswers ex_env (Some (js ''g1'')) ex_store))) = 2 * 2"
    by simp
  with s dd e c show ?thesis by blast
qed

lemma generateAnswers_store:
  assumes "gameId \<noteq> []" and "game_read_fault env = None"
    and "games store gameId = Some game" and "judge game = Some jd"
    and "questions jd = Some qs" and "qs \<noteq> []"
    and "players_query_fault env = None"
    and "filter (\<lambda>p. p_gameId p = gameId) (players store) = ps" and "ps \<noteq> []"
    and "game_patch_fault env = None"
    and "successes (responses_of (fst (generateAnswers env (Some gameId) store))) \<noteq> []"
  shows "snd (generateAnswers env (Some gameId) store) =
     store\<lparr>games := (games store)(gameId \<mapsto>
        game\<lparr>aiResponses :=
          Some (successes (responses_of (fst (generateAnswers env (Some gameId) store))))\<rparr>)\<rparr>"
  using assms(10,11) assms(3) unfolding generateAnswers_run [OF assms(1-9)]
  by (simp add: Let_def patch_aiResponses_def)

text \<open>
  Claim C9, as amended. After a run in which at least one pair succeeds and the write to the
  store does not fail, the field \<open>aiResponses\<close> of the game document is exactly the list
  of the successful new answers: what the field held before is replaced, not kept. The
  rest of the store is unchanged.
\<close>

theorem generateAnswers_replaces_aiResponses:
  assumes "gameId \<noteq> []" and "game_read_fault env = None"
    and "games store gameId = Some game" and "judge game = Some jd"
    and "questions jd = Some qs" and "qs \<noteq> []"
    and "players_query_fault env = None"
    and "filter (\<lambda>p. p_gameId p = gameId) (players store) = ps" and "ps \<noteq> []"
    and "game_patch_fault env = None"
    and "successes (responses_of (fst (generateAnswers env (Some gameId) store))) \<noteq> []"
    and "store' = snd (generateAnswers env (Some gameId) store)"
    and "new = successes (responses_of (fst (generateAnswers env (Some gameId) store)))"
  shows "games store' = (games store)(gameId \<mapsto> game\<lparr>aiResponses := Some new\<rparr>) \<and>
     stored_aiResponses store' gameId = new \<and>
     players store' = players store"
  using generateAnswers_store [OF assms(1-11)] assms(12,13)
  by (simp add: stored_aiResponses_def)

lemma ex_successes:
  "successes (responses_of (fst (generateAnswers ex_env (Some (js ''g1'')) ex_store))) =
     [\<lparr>a_id = js ''g1-u1-q2'', a_gameId = js ''g1'', a_playerId = js ''u1'',
       a_playerName = js ''Ann'', a_questionId = js ''q2'', a_question = js ''How?'',
       a_assistantPrompt = Some (js ''Be #kind''), a_answer = js ''ok'', a_timestamp = js ''t1''\<rparr>,
      \<lparr>a_id = js ''g1-u2-q2'', a_gameId = js ''g1'', a_playerId = js ''u2'',
       a_playerName = js ''Unknown Player'', a_questionId = js ''q2'', a_question = js ''How?'',
       a_assistantPrompt = None, a_answer = [], a_timestamp = js ''t1''\<rparr>]"
  unfolding generateAnswers_run [OF ex_pre]
  by (simp add: Let_def processPair_def ex_defs js_def)

text \<open>Claim C9 (amended) at the same game.\<close>

theorem generateAnswers_replaces_aiResponses_witness:
  "stored_aiResponses (snd (generateAnswers ex_env (Some (js ''g1'')) ex_store)) (js ''g1'') =
     successes (responses_of (fst (generateAnswers ex_env (Some (js ''g1'')) ex_store))) \<and>
   successes (responses_of (fst (generateAnswers ex_env (Some (js ''g1'')) ex_store))) \<noteq> [] \<and>
   stored_aiResponses ex_store (js ''g1'') \<noteq> [] \<and>
   game_patch_fault ex_env = None"
proof -
  have n: "successes (responses_of (fst (generateAnswers ex_env (Some (js ''g1'')) ex_store))) \<noteq> []"
    unfolding ex_successes by simp
  have f: "game_patch_fault ex_env = None"
    by (simp add: ex_env_def)
  have o: "stored_aiResponses ex_store (js ''g1'') \<noteq> []"
    by (simp add: stored_aiResponses_def ex_store_def ex_game_def)
  from generateAnswers_replaces_aiResponses [OF ex_pre f n refl refl] n f o
  show ?thesis by blast
qed

text \<open>
  Claim C9, as stated, fails: a game that holds one stored answer is run again, two pairs
  succeed, and the stored list afterwards is not the old list followed by the new answers.
\<close>

theorem generateAnswers_not_appended:
  "stored_aiResponses (snd (generateAnswers ex_env (Some (js ''g1'')) ex_store)) (js ''g1'') \<noteq>
   stored_aiResponses ex_store (js ''g1'') @
     successes (responses_of (fst (generateAnswers ex_env (Some (js ''g1'')) ex_store)))"
proof -
  have n: "successes (responses_of (fst (generateAnswers ex_env (Some (js ''g1'')) ex_store))) \<noteq> []"
    unfolding ex_successes by simp
  have f: "game_patch_fault ex_env = None"
    by (simp add: ex_env_def)
  have o: "stored_aiResponses ex_store (js ''g1'') = [ex_old_answer]"
    by (simp add: stored_aiResponses_def ex_store_def ex_game_def)
  have "stored_aiResponses (snd (generateAnswers ex_env (Some (js ''g1'')) ex_store)) (js ''g1'') =
     successes (responses_of (fst (generateAnswers ex_env (Some (js ''g1'')) ex_store)))"
    unfolding generateAnswers_store [OF ex_pre f n]
    by (simp add: stored_aiResponses_def)
  with o show ?thesis by simp
qed

lemma processPair_choice:
  "chat env p q (prompt_for p q) = Inr (Some (ChatCompletion (Some (c # cs)))) \<Longrightarrow>
   processPair env gameId p q =
     Answer \<lparr>a_id = gameId @ js ''-'' @ p_id p @ js ''-'' @ q_id q,
       a_gameId = p_gameId p, a_playerId = p_id p,
       a_playerName = (if p_screenName p = [] then js ''Unknown Player'' else p_screenName p),
       a_questionId = q_id q, a_question = q_content q, a_assistantPrompt = p_prompt p,
       a_answer = first_content (c # cs), a_timestamp = clock env p q\<rparr>"
  by (simp add: processPair_def prompt_for_def Let_def)

lemma empty_response_iff:
  "is_empty_response_error (processPair env gameId p q) \<longleftrightarrow>
     chat env p q (prompt_for p q) = Inr None \<or>
     chat env p q (prompt_for p q) = Inr (Some (ChatCompletion None)) \<or>
     chat env p q (prompt_for p q) = Inr (Some (ChatCompletion (Some [])))"
proof (cases "chat env p q (prompt_for p q)")
  case (Inl err)
  have "js ''Content filter triggered'' \<noteq> js ''Empty response from AI service''"
    "js ''Error generating response'' \<noteq> js ''Empty response from AI service''"
    by (simp_all add: js_def)
  with Inl show ?thesis
    by (simp add: processPair_def prompt_for_def Let_def is_empty_response_error_def)
next
  case (Inr response)
  show ?thesis
  proof (cases response)
    case None
    with Inr show ?thesis
      by (simp add: processPair_def prompt_for_def Let_def is_empty_response_error_def)
  next
    case (Some cc)
    obtain chs where cc: "cc = ChatCompletion chs" by (cases cc)
    show ?thesis
    proof (cases chs)
      case None
      with Inr Some cc show ?thesis
        by (simp add: processPair_def prompt_for_def Let_def is_empty_response_error_def)
    next
      case (Some l)
      with Inr \<open>response = Some cc\<close> cc show ?thesis
        by (cases l) (simp_all add: processPair_def prompt_for_def Let_def is_empty_response_error_def)
    qed
  qed
qed

lemma successes_mem: "Answer a \<in> set rs \<Longrightarrow> a \<in> set (successes rs)"
  by (induction rs rule: successes.induct) auto

text \<open>
  Claim C10. A completion whose list of choices is non-empty, but whose first choice has no
  message, no content or the empty content, is a success: the entry of the pair is an Answer
  whose field \<open>answer\<close> is the empty string, and it is among the answers stored on the
  game. The AnswerError "Empty response from AI service" is produced exactly when the
  response is absent, or its list of choices is absent or empty.
\<close>

theorem empty_content_is_success:
  assumes "gameId \<noteq> []" and "game_read_fault env = None"
    and "games store gameId = Some game" and "judge game = Some jd"
    and "questions jd = Some qs" and "qs \<noteq> []"
    and "players_query_fault env = None"
    and "filter (\<lambda>p. p_gameId p = gameId) (players store) = ps" and "ps \<noteq> []"
    and "game_patch_fault env = None"
    and "p \<in> set ps" and "q \<in> set qs"
    and "chat env p q (prompt_for p q) = Inr (Some (ChatCompletion (Some (c # cs))))"
    and "c = Choice None \<or> c = Choice (Some (Message None)) \<or> c = Choice (Some (Message (Some [])))"
    and "a = \<lparr>a_id = gameId @ js ''-'' @ p_id p @ js ''-'' @ q_id q,
       a_gameId = p_gameId p, a_playerId = p_id p,
       a_playerName = (if p_screenName p = [] then js ''Unknown Player'' else p_screenName p),
       a_questionId = q_id q, a_question = q_content q, a_assistantPrompt = p_prompt p,
       a_answer = [], a_timestamp = clock env p q\<rparr>"
  shows "processPair env gameId p q = Answer a \<and>
     Answer a \<in> set (responses_of (fst (generateAnswers env (Some gameId) store))) \<and>
     a \<in> set (stored_aiResponses (snd (generateAnswers env (Some gameId) store)) gameId) \<and>
     (\<forall>p' q'. is_empty_response_error (processPair env gameId p' q') \<longleftrightarrow>
        chat env p' q' (prompt_for p' q') = Inr None \<or>
        chat env p' q' (prompt_for p' q') = Inr (Some (ChatCompletion None)) \<or>
        chat env p' q' (prompt_for p' q') = Inr (Some (ChatCompletion (Some []))))"
proof -
  let ?r = "fst (generateAnswers env (Some gameId) store)"
  have fc: "first_content (c # cs) = []"
    using assms(14) by auto
  have pp: "processPair env gameId p q = Answer a"
    using processPair_choice [OF assms(13)] fc assms(15) by simp
  have rs: "responses_of ?r = map (\<lambda>(p, q). processPair env gameId p q) (List.product ps qs)"
    using generateAnswers_run [OF assms(1-9)] by (simp add: Let_def)
  have "(p, q) \<in> set (List.product ps qs)"
    using assms(11,12) by simp
  then have "processPair env gameId p q \<in> set (responses_of ?r)"
    unfolding rs by force
  with pp have mem: "Answer a \<in> set (responses_of ?r)" by simp
  then have sm: "a \<in> set (successes (responses_of ?r))" by (rule successes_mem)
  then have ne: "successes (responses_of ?r) \<noteq> []" by auto
  have "stored_aiResponses (snd (generateAnswers env (Some gameId) store)) gameId =
      successes (responses_of ?r)"
    unfolding generateAnswers_store [OF assms(1-10) ne]
    by (simp add: stored_aiResponses_def)
  with sm have st: "a \<in> set (stored_aiResponses (snd (generateAnswers env (Some gameId) store)) gameId)"
    by simp
  from pp mem st empty_response_iff show ?thesis by blast
qed

text \<open>Claim C10 at the same game: the second player's second question is answered by a
  choice without content, the first question by an empty list of choices.\<close>

theorem empty_content_is_success_witness:
  "processPair ex_env (js ''g1'') ex_player2 ex_question2 =
     Answer \<lparr>a_id = js ''g1-u2-q2'', a_gameId = js ''g1'', a_playerId = js ''u2'',
       a_playerName = js ''Unknown Player'', a_questionId = js ''q2'', a_question = js ''How?'',
       a_assistantPrompt = None, a_answer = [], a_timestamp = js ''t1''\<rparr> \<and>
   \<lparr>a_id = js ''g1-u2-q2'', a_gameId = js ''g1'', a_playerId = js ''u2'',
       a_playerName = js ''Unknown Player'', a_questionId = js ''q2'', a_question = js ''How?'',
       a_assistantPrompt = None, a_answer = [], a_timestamp = js ''t1''\<rparr>
     \<in> set (stored_aiResponses (snd (generateAnswers ex_env (Some (js ''g1'')) ex_store)) (js ''g1'')) \<and>
   chat ex_env ex_player2 ex_question2 (prompt_for ex_player2 ex_question2) =
     Inr (Some (ChatCompletion (Some [Choice (Some (Message None))]))) \<and>
   is_empty_response_error (processPair ex_env (js ''g1'') ex_player2 ex_question1)"
proof -
  have f: "game_patch_fault ex_env = None"
    by (simp add: ex_env_def)
  have c: "chat ex_env ex_player2 ex_question2 (prompt_for ex_player2 ex_question2) =
     Inr (Some (ChatCompletion (Some [Choice (Some (Message None))])))"
    by (simp add: ex_defs js_def)
  have c1: "chat ex_env ex_player2 ex_question1 (prompt_for ex_player2 ex_question1) =
     Inr (Some (ChatCompletion (Some [])))"
    by (simp add: ex_defs js_def)
  have m: "Choice (Some (Message None)) = Choice None \<or>
      Choice (Some (Message None)) = Choice (Some (Message None)) \<or>
      Choice (Some (Message None)) = Choice (Some (Message (Some [])))"
    by simp
  have a: "\<lparr>a_id = js ''g1-u2-q2'', a_gameId = js ''g1'', a_playerId = js ''u2'',
       a_playerName = js ''Unknown Player'', a_questionId = js ''q2'', a_question = js ''How?'',
       a_assistantPrompt = None, a_answer = [], a_timestamp = js ''t1''\<rparr> =
     \<lparr>a_id = js ''g1'' @ js ''-'' @ p_id ex_player2 @ js ''-'' @ q_id ex_question2,
       a_gameId = p_gameId ex_player2, a_playerId = p_id ex_player2,
       a_playerName = (if p_screenName ex_player2 = [] then js ''Unknown Player''
                       else p_screenName ex_player2),
       a_questionId = q_id ex_question2, a_question = q_content ex_question2,
       a_assistantPrompt = p_prompt ex_player2,
       a_answer = [], a_timestamp = clock ex_env ex_player2 ex_question2\<rparr>"
    by (simp add: ex_defs js_def)
  have p: "ex_player2 \<in> set [ex_player1, ex_player2]" and q: "ex_question2 \<in> set [ex_question1, ex_question2]"
    by simp_all
  note T = empty_content_is_success [OF ex_pre f p q c m a]
  from T c c1 show ?thesis by blast
qed



section \<open>Properties of the poll loop\<close>

lemma poll_loop_wait:
  "attempts < maxAttempts \<Longrightarrow> non_terminal (retrieve calls) \<Longrightarrow>
   poll_loop retrieve attempts calls sleeps =
     poll_loop retrieve (Suc attempts) (Suc calls) (sleeps @ [1000])"
  by (subst poll_loop.simps)
     (auto simp: non_terminal_def poll_once_def split: sum.splits)

lemma poll_loop_completed:
  "attempts < maxAttempts \<Longrightarrow> retrieve calls = Inr run \<Longrightarrow> run_status run = js ''completed'' \<Longrightarrow>
   poll_loop retrieve attempts calls sleeps = Some (Inr run, Suc calls, sleeps)"
  by (subst poll_loop.simps) (simp add: poll_once_def)

lemma poll_loop_exhausted:
  "\<not> attempts < maxAttempts \<Longrightarrow>
   poll_loop retrieve attempts calls sleeps =
     Some (Inl (Error (js ''Run timed out after 30 seconds'')), calls, sleeps)"
  by (subst poll_loop.simps) simp


lemma poll_loop_timeout:
  "attempts + n = maxAttempts \<Longrightarrow> \<forall>i < n. non_terminal (retrieve (calls + i)) \<Longrightarrow>
   poll_loop retrieve attempts calls sleeps =
     Some (Inl (Error (js ''Run timed out after 30 seconds'')), calls + n, sleeps @ replicate n 1000)"
proof (induction n arbitrary: attempts calls sleeps)
  case 0
  then show ?case by (simp add: poll_loop_exhausted)
next
  case (Suc n)
  from Suc.prems have lt: "attempts < maxAttempts" by simp
  from Suc.prems have nt: "non_terminal (retrieve calls)" by force
  have "\<forall>i < n. non_terminal (retrieve (Suc calls + i))"
    using Suc.prems(2) by (metis Suc_less_eq add_Suc_shift)
  moreover from Suc.prems have "Suc attempts + n = maxAttempts" by simp
  ultimately have "poll_loop retrieve (Suc attempts) (Suc calls) (sleeps @ [1000]) =
     Some (Inl (Error (js ''Run timed out after 30 seconds'')), Suc calls + n,
           (sleeps @ [1000]) @ replicate n 1000)"
    by (rule Suc.IH [rotated])
  then show ?case
    unfolding poll_loop_wait [of attempts retrieve calls sleeps, OF lt nt]
    by (simp add: replicate_app_Cons_same)
qed


text \<open>The loop need not end: when every pass ends in the \<^verbatim>\<open>catch\<close> clause's sleep, it has
  no result.\<close>

lemma poll_loop_returns_not_limited:
  assumes "poll_loop r a c s = Some z"
  shows "\<not> (a < maxAttempts \<and> (\<forall>k. \<exists>ms. poll_once (r k) = RateLimitWait ms))"
proof (rule poll_loop.raw_induct
    [where P = "\<lambda>r a c s z. \<not> (a < maxAttempts \<and> (\<forall>k. \<exists>ms. poll_once (r k) = RateLimitWait ms))",
     OF _ assms])
  fix poll_loop' :: "(nat \<Rightarrow> js_error + Run) \<Rightarrow> nat \<Rightarrow> nat \<Rightarrow> nat list \<Rightarrow>
      ((js_error + Run) \<times> nat \<times> nat list) option"
  fix retrieve' attempts' calls' sleeps' z'
  assume IH: "\<And>r a c s z. poll_loop' r a c s = Some z \<Longrightarrow>
      \<not> (a < maxAttempts \<and> (\<forall>k. \<exists>ms. poll_once (r k) = RateLimitWait ms))"
  assume body: "(if attempts' < maxAttempts then
        (case poll_once (retrieve' calls') of
           Return run \<Rightarrow> Some (Inr run, Suc calls', sleeps')
         | Rethrow error \<Rightarrow> Some (Inl error, Suc calls', sleeps')
         | Wait ms \<Rightarrow> poll_loop' retrieve' (Suc attempts') (Suc calls') (sleeps' @ [ms])
         | RateLimitWait ms \<Rightarrow> poll_loop' retrieve' attempts' (Suc calls') (sleeps' @ [ms]))
      else Some (Inl (Error (js ''Run timed out after 30 seconds'')), calls', sleeps')) = Some z'"
  show "\<not> (attempts' < maxAttempts \<and> (\<forall>k. \<exists>ms. poll_once (retrieve' k) = RateLimitWait ms))"
  proof
    assume h: "attempts' < maxAttempts \<and> (\<forall>k. \<exists>ms. poll_once (retrieve' k) = RateLimitWait ms)"
    then obtain ms where "poll_once (retrieve' calls') = RateLimitWait ms" by blast
    with body h have "poll_loop' retrieve' attempts' (Suc calls') (sleeps' @ [ms]) = Some z'"
      by simp
    from IH [OF this] h show False by blast
  qed
qed

lemma poll_loop_sleeps_forever:
  assumes "attempts < maxAttempts" and "\<forall>k. \<exists>ms. poll_once (retrieve k) = RateLimitWait ms"
  shows "poll_loop retrieve attempts calls sleeps = None"
proof (cases "poll_loop retrieve attempts calls sleeps")
  case None
  then show ?thesis .
next
  case (Some z)
  from poll_loop_returns_not_limited [OF this] assms show ?thesis by blast
qed

lemma poll_loop_rate_limited_forever:
  assumes "attempts < maxAttempts"
    and "\<forall>k. \<exists>msg. retrieve k = Inl (Error msg) \<and> includes_str (js ''Rate limit'') msg"
  shows "poll_loop retrieve attempts calls sleeps = None"
proof -
  have "\<exists>ms. poll_once (retrieve k) = RateLimitWait ms" for k
  proof -
    from assms(2) obtain msg where "retrieve k = Inl (Error msg)"
      "includes_str (js ''Rate limit'') msg" by blast
    then show ?thesis by (simp add: poll_once_def)
  qed
  with assms(1) show ?thesis by (intro poll_loop_sleeps_forever) blast+
qed

lemma search_skip:
  "\<forall>c \<in> set pre. \<forall>r. m (c # r) = None \<Longrightarrow> regex_search m (pre @ s) = regex_search m s"
  by (induction pre) auto

lemma poll_loop_rethrow:
  "attempts < maxAttempts \<Longrightarrow> poll_once (retrieve calls) = Rethrow e \<Longrightarrow>
   poll_loop retrieve attempts calls sleeps = Some (Inl e, Suc calls, sleeps)"
  by (subst poll_loop.simps) simp

lemma poll_once_failed:
  "run_status run = js ''failed'' \<Longrightarrow> \<not> includes_str (js ''Rate limit'') (run_failed_message run) \<Longrightarrow>
   poll_once (Inr run) = Rethrow (Error (run_failed_message run))"
  by (simp add: poll_once_def js_def)

lemma in_progress_non_terminal: "run_status r = js ''in_progress'' \<Longrightarrow> non_terminal (Inr r)"
  by (simp add: non_terminal_def js_def)

text \<open>
  Three status sequences on which the loop ends as expected. When the
  statuses seen are in_progress, in_progress, completed, the runner makes exactly three
  status calls and returns the run. When the first status seen is failed and the message
  "Run failed..." built for it does not contain "Rate limit", the runner fails at the first
  call with that message, no attempt used. When the first thirty statuses all go to the
  default branch, the runner makes thirty calls and fails with the timeout error.
\<close>

lemma waitForRunCompletion_scenarios:
  "(retrieve 0 = Inr r0 \<and> run_status r0 = js ''in_progress'' \<and>
    retrieve 1 = Inr r1 \<and> run_status r1 = js ''in_progress'' \<and>
    retrieve 2 = Inr r2 \<and> run_status r2 = js ''completed'' \<longrightarrow>
      waitForRunCompletion retrieve = Some (Inr r2, 3, [1000, 1000])) \<and>
   (retrieve 0 = Inr r \<and> run_status r = js ''failed'' \<and>
    \<not> includes_str (js ''Rate limit'') (run_failed_message r) \<longrightarrow>
      waitForRunCompletion retrieve = Some (Inl (Error (run_failed_message r)), 1, [])) \<and>
   ((\<forall>k < 30. non_terminal (retrieve k)) \<longrightarrow>
      waitForRunCompletion retrieve =
        Some (Inl (Error (js ''Run timed out after 30 seconds'')), 30, replicate 30 1000))"
proof (intro conjI impI)
  assume a: "retrieve 0 = Inr r0 \<and> run_status r0 = js ''in_progress'' \<and>
    retrieve 1 = Inr r1 \<and> run_status r1 = js ''in_progress'' \<and>
    retrieve 2 = Inr r2 \<and> run_status r2 = js ''completed''"
  have m: "0 < maxAttempts" "1 < maxAttempts" "2 < maxAttempts"
    by (simp_all add: maxAttempts_def)
  have n0: "non_terminal (retrieve 0)" and n1: "non_terminal (retrieve 1)"
    using a in_progress_non_terminal by simp_all
  have "poll_loop retrieve 0 0 [] = poll_loop retrieve (Suc 0) (Suc 0) ([] @ [1000])"
    using m(1) n0 by (rule poll_loop_wait)
  also have "\<dots> = poll_loop retrieve (Suc (Suc 0)) (Suc (Suc 0)) (([] @ [1000]) @ [1000])"
    using m(2) n1 by (intro poll_loop_wait) simp_all
  also have "\<dots> = Some (Inr r2, Suc (Suc (Suc 0)), ([] @ [1000]) @ [1000])"
    using m(3) a by (intro poll_loop_completed) (simp_all add: numeral_2_eq_2)
  finally show "waitForRunCompletion retrieve = Some (Inr r2, 3, [1000, 1000])"
    by (simp add: waitForRunCompletion_def numeral_3_eq_3)
next
  assume a: "retrieve 0 = Inr r \<and> run_status r = js ''failed'' \<and>
    \<not> includes_str (js ''Rate limit'') (run_failed_message r)"
  then have "poll_once (retrieve 0) = Rethrow (Error (run_failed_message r))"
    using poll_once_failed by simp
  moreover have "0 < maxAttempts" by (simp add: maxAttempts_def)
  ultimately have "poll_loop retrieve 0 0 [] = Some (Inl (Error (run_failed_message r)), Suc 0, [])"
    by (intro poll_loop_rethrow)
  then show "waitForRunCompletion retrieve = Some (Inl (Error (run_failed_message r)), 1, [])"
    by (simp add: waitForRunCompletion_def)
next
  assume a: "\<forall>k < 30. non_terminal (retrieve k)"
  have "poll_loop retrieve 0 0 [] =
     Some (Inl (Error (js ''Run timed out after 30 seconds'')), 0 + 30, [] @ replicate 30 1000)"
    using a by (intro poll_loop_timeout) (simp_all add: maxAttempts_def)
  then show "waitForRunCompletion retrieve =
        Some (Inl (Error (js ''Run timed out after 30 seconds'')), 30, replicate 30 1000)"
    by (simp add: waitForRunCompletion_def)
qed

lemma waitForRunCompletion_scenarios_examples:
  "waitForRunCompletion (\<lambda>k. if k < 2 then Inr ex_in_progress else Inr ex_completed) =
     Some (Inr ex_completed, 3, [1000, 1000]) \<and>
   waitForRunCompletion (\<lambda>k. Inr ex_failed) = Some (Inl (Error (js ''Run failed'')), 1, []) \<and>
   waitForRunCompletion (\<lambda>k. Inr ex_in_progress) =
     Some (Inl (Error (js ''Run timed out after 30 seconds'')), 30, replicate 30 1000)"
proof -
  have a: "(if (0::nat) < 2 then Inr ex_in_progress else Inr ex_completed) = (Inr ex_in_progress :: js_error + Run) \<and>
      run_status ex_in_progress = js ''in_progress'' \<and>
      (if (1::nat) < 2 then Inr ex_in_progress else Inr ex_completed) = (Inr ex_in_progress :: js_error + Run) \<and>
      run_status ex_in_progress = js ''in_progress'' \<and>
      (if (2::nat) < 2 then Inr ex_in_progress else Inr ex_completed) = (Inr ex_completed :: js_error + Run) \<and>
      run_status ex_completed = js ''completed''"
    by (simp add: ex_in_progress_def ex_completed_def)
  have b: "Inr ex_failed = (Inr ex_failed :: js_error + Run) \<and> run_status ex_failed = js ''failed'' \<and>
      \<not> includes_str (js ''Rate limit'') (run_failed_message ex_failed)"
    by (simp add: ex_failed_def run_failed_message_def js_def starts_with_def)
  have c: "\<forall>k < 30. non_terminal ((\<lambda>k. Inr ex_in_progress :: js_error + Run) k)"
    by (simp add: in_progress_non_terminal ex_in_progress_def)
  have m: "run_failed_message ex_failed = js ''Run failed''"
    by (simp add: ex_failed_def run_failed_message_def)
  note A = waitForRunCompletion_scenarios
    [of "\<lambda>k. if k < 2 then Inr ex_in_progress else Inr ex_completed"
        ex_in_progress ex_in_progress ex_completed]
  note B = waitForRunCompletion_scenarios [of "\<lambda>k. Inr ex_failed" _ _ _ ex_failed]
  note C = waitForRunCompletion_scenarios [of "\<lambda>k. Inr ex_in_progress"]
  have 1: "waitForRunCompletion (\<lambda>k. if k < 2 then Inr ex_in_progress else Inr ex_completed) =
     Some (Inr ex_completed, 3, [1000, 1000])"
    using A a by blast
  have 2: "waitForRunCompletion (\<lambda>k. Inr ex_failed) = Some (Inl (Error (js ''Run failed'')), 1, [])"
    using B b unfolding m by blast
  have 3: "waitForRunCompletion (\<lambda>k. Inr ex_in_progress) =
     Some (Inl (Error (js ''Run timed out after 30 seconds'')), 30, replicate 30 1000)"
    using C c by blast
  from 1 2 3 show ?thesis by blast
qed

text \<open>
  Claim C3. The claim says that a run seen as failed makes the runner fail at once, at the
  first status call. It does not when the provider's message for the failure contains
  "Rate limit": the error that the runner throws for the failed run is caught by the
  runner's own \<^verbatim>\<open>catch\<close> clause, which takes it for a rate limit of the status call,
  sleeps two seconds and polls again. A failed run stays failed, so every later call ends
  the same way and the runner never fails: it has no result.
\<close>

theorem failed_run_never_fails:
  "poll_once (Inr ex_failed_rate_limit) = RateLimitWait 2000 \<and>
   waitForRunCompletion (\<lambda>k. Inr ex_failed_rate_limit) = None"
proof -
  have msg: "run_failed_message ex_failed_rate_limit =
      js ''Run failed: Rate limit is exceeded. Try again in 2 seconds.''"
    by (simp add: run_failed_message_def ex_failed_rate_limit_def js_def)
  have w: "waitTime (js ''Run failed: Rate limit is exceeded. Try again in 2 seconds.'') = Some 2"
    by (simp add: waitTime_def try_again_at_def strip_lit_def starts_with_def js_def
        is_digit_def parseInt_def)
  have inc: "includes_str (js ''Rate limit'')
      (js ''Run failed: Rate limit is exceeded. Try again in 2 seconds.'')"
    by (simp add: js_def starts_with_def)
  have st: "run_status ex_failed_rate_limit = js ''failed''"
    "js ''failed'' \<noteq> js ''completed''"
    by (simp_all add: ex_failed_rate_limit_def js_def)
  have p: "poll_once (Inr ex_failed_rate_limit) = RateLimitWait 2000"
    using st inc by (simp add: poll_once_def msg w rate_limit_delay_def)
  then have "\<forall>k. \<exists>ms. poll_once ((\<lambda>k. Inr ex_failed_rate_limit) k) = RateLimitWait ms"
    by blast
  then have "poll_loop (\<lambda>k. Inr ex_failed_rate_limit) 0 0 [] = None"
    by (intro poll_loop_sleeps_forever) (simp_all add: maxAttempts_def)
  with p show ?thesis by (simp add: waitForRunCompletion_def)
qed














section \<open>Properties of the response parser\<close>

lemma digit_not_space: "is_digit c \<Longrightarrow> \<not> is_space c"
  by (auto simp: is_digit_def is_space_def)

lemma canon_digit: "is_digit c \<Longrightarrow> canon c = c"
  by (simp add: is_digit_def canon_def)

lemma is_digits_Cons: "is_digits ds \<Longrightarrow> \<exists>d r. ds = d # r \<and> is_digit d"
  by (cases ds) (auto simp: is_digits_def)

lemma takeWhile_digits:
  "is_digits ds \<Longrightarrow> \<not> is_digit x \<Longrightarrow> takeWhile is_digit (ds @ x # r) = ds"
  by (simp add: is_digits_def takeWhile_append2)

lemma dropWhile_space_digits: "is_digits ds \<Longrightarrow> dropWhile is_space (ds @ r) = ds @ r"
  using is_digits_Cons [of ds] by (auto simp: digit_not_space)

lemma takeWhile_space_digits: "is_digits ds \<Longrightarrow> takeWhile is_space (ds @ r) = []"
  using is_digits_Cons [of ds] by (auto simp: digit_not_space)

lemma score_at_digit:
  "is_digit d \<Longrightarrow> \<not> is_digit (canon p) \<Longrightarrow> score_at (p # ps) post (d # r) = None"
  by (auto simp: score_at_def canon_digit)

lemma justification_at_digit:
  "is_digit d \<Longrightarrow> \<not> is_digit (canon p) \<Longrightarrow> justification_at (p # ps) la (d # r) = None"
  by (auto simp: justification_at_def canon_digit)

lemma search_score_digits:
  "is_digits ds \<Longrightarrow> \<not> is_digit (canon p) \<Longrightarrow>
   regex_search (score_at (p # ps) post) (ds @ s) = regex_search (score_at (p # ps) post) s"
  by (rule search_skip) (simp add: is_digits_def score_at_digit)

lemma search_justification_digits:
  "is_digits ds \<Longrightarrow> \<not> is_digit (canon p) \<Longrightarrow>
   regex_search (justification_at (p # ps) la) (ds @ s) =
   regex_search (justification_at (p # ps) la) s"
  by (rule search_skip) (simp add: is_digits_def justification_at_digit)

lemma search_score_no_star:
  "42 \<notin> set s \<Longrightarrow> regex_search (score_at (42 # ps) post) s = None"
  by (induction s) (auto simp: score_at_def canon_def split: if_splits)

lemma search_justification_no_star:
  "42 \<notin> set s \<Longrightarrow> regex_search (justification_at (42 # ps) la) s = None"
  by (induction s) (auto simp: justification_at_def canon_def split: if_splits)

lemma search_code_block_no_backtick:
  "96 \<notin> set s \<Longrightarrow> regex_search code_block_at s = None"
  by (induction s) (auto simp: code_block_at_def strip_lit_def starts_with_def js_def)

lemma digits_no_special: "is_digits ds \<Longrightarrow> 42 \<notin> set ds \<and> 96 \<notin> set ds \<and> 10 \<notin> set ds"
  by (auto simp: is_digits_def is_digit_def)

lemma plain_form_chars:
  assumes "is_digits c" "is_digits t" "is_digits cl" "is_digits f" "plain_line j"
  shows "42 \<notin> set (plain_form c t cl f j)" "96 \<notin> set (plain_form c t cl f j)"
  using assms digits_no_special [of c] digits_no_special [of t] digits_no_special [of cl]
    digits_no_special [of f]
  by (simp_all add: plain_form_def plain_line_def js_def)

lemma plain_context:
  assumes "is_digits c"
  shows "regex_search (score_at (js ''Context'') (js ''Score:'')) (plain_form c t cl f j) = Some c"
  using assms
  by (simp add: plain_form_def js_def score_at_def canon_def is_space_def is_digit_def
      dropWhile_space_digits takeWhile_digits) (simp add: is_digits_def)

lemmas parse_eval = js_def score_at_def canon_def is_space_def is_digit_def
  dropWhile_space_digits takeWhile_digits search_score_digits

lemma plain_technical:
  assumes "is_digits c" "is_digits t"
  shows "regex_search (score_at (js ''Technical'') (js ''Score:'')) (plain_form c t cl f j) = Some t"
  using assms
  by (simp add: plain_form_def parse_eval) (simp add: is_digits_def)

lemma plain_clarity:
  assumes "is_digits c" "is_digits t" "is_digits cl"
  shows "regex_search (score_at (js ''Clarity'') (js ''Score:'')) (plain_form c t cl f j) = Some cl"
  using assms
  by (simp add: plain_form_def parse_eval) (simp add: is_digits_def)

lemma plain_final:
  assumes "is_digits c" "is_digits t" "is_digits cl" "is_digits f"
  shows "regex_search (score_at (js ''Final'') (js ''Score:'')) (plain_form c t cl f j) = Some f"
  using assms
  by (simp add: plain_form_def parse_eval) (simp add: is_digits_def)

lemma lazy_until_line:
  "10 \<notin> set s \<Longrightarrow> s \<noteq> [] \<Longrightarrow> la = la_plain \<or> la = la_emph \<Longrightarrow> lazy_until la s = Some s"
proof (induction s)
  case Nil
  then show ?case by simp
next
  case (Cons c cs)
  show ?case
  proof (cases "cs = []")
    case True
    with Cons.prems(3) show ?thesis by (auto simp: la_plain_def la_emph_def)
  next
    case False
    then obtain d ds where cs: "cs = d # ds" by (cases cs) auto
    with Cons.prems(1) have "d \<noteq> 10" by auto
    with cs Cons.prems(3) have "\<not> la cs"
      by (auto simp: la_plain_def la_emph_def starts_with_def)
    moreover from Cons False have "lazy_until la cs = Some cs" by simp
    ultimately show ?thesis by simp
  qed
qed

lemma ws_star_hit: "k (dropWhile is_space r) = Some x \<Longrightarrow> ws_star_then k r = Some x"
  by (induction r) auto

lemma ws_star_blank:
  "r \<noteq> [] \<Longrightarrow> \<forall>c \<in> set r. is_space c \<Longrightarrow> la [] \<Longrightarrow>
   ws_star_then (lazy_until la) r = Some [last r]"
proof (induction r)
  case Nil
  then show ?case by simp
next
  case (Cons c cs)
  show ?case
  proof (cases "cs = []")
    case True
    with Cons.prems show ?thesis by simp
  next
    case False
    with Cons have "ws_star_then (lazy_until la) cs = Some [last cs]" by simp
    with Cons.prems False show ?thesis by simp
  qed
qed

lemma trim_dropWhile: "trim (dropWhile is_space s) = trim s"
  by (simp add: trim_def)

lemma trim_blank: "\<forall>c \<in> set s. is_space c \<Longrightarrow> trim s = []"
proof -
  assume "\<forall>c \<in> set s. is_space c"
  then have "dropWhile is_space s = []" by simp
  then show ?thesis by (simp only: trim_def) simp
qed

lemma capture_line:
  assumes "10 \<notin> set j" and "la = la_plain \<or> la = la_emph"
  shows "\<exists>cap. ws_star_then (lazy_until la) (32 # j) = Some cap \<and> trim cap = trim j"
proof (cases "dropWhile is_space j = []")
  case True
  then have sp: "\<forall>c \<in> set j. is_space c" by simp
  then have "\<forall>c \<in> set (32 # j). is_space c" by (simp add: is_space_32)
  moreover have "la []" using assms(2) by (auto simp: la_plain_def la_emph_def)
  ultimately have "ws_star_then (lazy_until la) (32 # j) = Some [last (32 # j)]"
    by (intro ws_star_blank) simp_all
  moreover have "is_space (last (32 # j))"
    using sp by (cases "j = []") (simp_all add: is_space_32)
  then have "trim [last (32 # j)] = []" by (simp add: trim_def)
  ultimately show ?thesis using trim_blank [OF sp] by simp
next
  case False
  have "10 \<notin> set (dropWhile is_space j)"
    using assms(1) by (auto dest: set_dropWhileD)
  then have "lazy_until la (dropWhile is_space j) = Some (dropWhile is_space j)"
    using False assms(2) by (intro lazy_until_line)
  then have "lazy_until la (dropWhile is_space (32 # j)) = Some (dropWhile is_space j)"
    by (simp add: is_space_32)
  then have "ws_star_then (lazy_until la) (32 # j) = Some (dropWhile is_space j)"
    by (rule ws_star_hit)
  then show ?thesis by (simp add: trim_dropWhile)
qed

lemma plain_justification:
  assumes "is_digits c" "is_digits t" "is_digits cl" "is_digits f"
    and "ws_star_then (lazy_until la_plain) (32 # j) = Some cap"
  shows "regex_search (justification_at (js ''Justification:'') la_plain) (plain_form c t cl f j) =
     Some cap"
  using assms
  by (simp add: plain_form_def js_def justification_at_def canon_def search_justification_digits
      is_digit_def del: ws_star_then.simps)

lemma emphasized_context:
  assumes "is_digits c"
  shows "regex_search (score_at (js ''**'' @ js ''Context'') (js ''Score:**''))
           (emphasized_form c t cl f j) = Some c"
  using assms
  by (simp add: emphasized_form_def parse_eval) (simp add: is_digits_def)

lemma emphasized_technical:
  assumes "is_digits c" "is_digits t"
  shows "regex_search (score_at (js ''**'' @ js ''Technical'') (js ''Score:**''))
           (emphasized_form c t cl f j) = Some t"
  using assms
  by (simp add: emphasized_form_def parse_eval) (simp add: is_digits_def)

lemma emphasized_clarity:
  assumes "is_digits c" "is_digits t" "is_digits cl"
  shows "regex_search (score_at (js ''**'' @ js ''Clarity'') (js ''Score:**''))
           (emphasized_form c t cl f j) = Some cl"
  using assms
  by (simp add: emphasized_form_def parse_eval) (simp add: is_digits_def)

lemma emphasized_final:
  assumes "is_digits c" "is_digits t" "is_digits cl" "is_digits f"
  shows "regex_search (score_at (js ''**'' @ js ''Final'') (js ''Score:**''))
           (emphasized_form c t cl f j) = Some f"
  using assms
  by (simp add: emphasized_form_def parse_eval) (simp add: is_digits_def)

lemma emphasized_justification:
  assumes "is_digits c" "is_digits t" "is_digits cl" "is_digits f"
    and "ws_star_then (lazy_until la_emph) (32 # j) = Some cap"
  shows "regex_search (justification_at (js ''**Justification:**'') la_emph)
           (emphasized_form c t cl f j) = Some cap"
  using assms
  by (simp add: emphasized_form_def js_def justification_at_def canon_def
      search_justification_digits is_digit_def del: ws_star_then.simps)

lemma emphasized_form_chars:
  assumes "is_digits c" "is_digits t" "is_digits cl" "is_digits f" "plain_line j"
  shows "96 \<notin> set (emphasized_form c t cl f j)"
  using assms digits_no_special [of c] digits_no_special [of t] digits_no_special [of cl]
    digits_no_special [of f]
  by (simp add: emphasized_form_def plain_line_def js_def)

lemma plain_form_headers:
  "strip_header1 (plain_form c t cl f j) = plain_form c t cl f j"
  "strip_header2 (plain_form c t cl f j) = plain_form c t cl f j"
  by (simp_all add: plain_form_def strip_header1_def strip_header2_def strip_lit_def opt_lit_def
      starts_with_def js_def canon_def)

lemma emphasized_form_headers:
  "strip_header1 (emphasized_form c t cl f j) = emphasized_form c t cl f j"
  "strip_header2 (emphasized_form c t cl f j) = emphasized_form c t cl f j"
  by (simp_all add: emphasized_form_def strip_header1_def strip_header2_def strip_lit_def
      opt_lit_def starts_with_def js_def canon_def)

lemma match_score_plain:
  assumes "42 \<notin> set s" and "regex_search (score_at label (js ''Score:'')) s = Some ds"
  shows "match_score label s = Some ds"
  using assms by (simp add: match_score_def js_def search_score_no_star)

lemma match_score_emphasized:
  assumes "regex_search (score_at (js ''**'' @ label) (js ''Score:**'')) s = Some ds"
  shows "match_score label s = Some ds"
  using assms by (simp add: match_score_def)

lemma match_justification_plain:
  assumes "42 \<notin> set s"
    and "regex_search (justification_at (js ''Justification:'') la_plain) s = Some cap"
  shows "match_justification s = Some cap"
  using assms by (simp add: match_justification_def js_def search_justification_no_star)

lemma match_justification_emphasized:
  assumes "regex_search (justification_at (js ''**Justification:**'') la_emph) s = Some cap"
  shows "match_justification s = Some cap"
  using assms by (simp add: match_justification_def)

lemma parse_plain_form:
  assumes "is_digits c" "is_digits t" "is_digits cl" "is_digits f" "plain_line j"
  shows "parseFormattedResponse (plain_form c t cl f j) =
     Inr \<lparr>contextScore = int (parseInt c), technicalScore = int (parseInt t),
          clarityScore = int (parseInt cl), totalScore = int (parseInt f),
          justification = trim j\<rparr>"
proof -
  let ?s = "plain_form c t cl f j"
  have star: "42 \<notin> set ?s" and tick: "96 \<notin> set ?s"
    using plain_form_chars [OF assms] by simp_all
  from assms(5) obtain cap where cap: "ws_star_then (lazy_until la_plain) (32 # j) = Some cap"
    and tr: "trim cap = trim j"
    using capture_line [of j la_plain] by (auto simp: plain_line_def)
  have "match_score (js ''Context'') ?s = Some c"
    using star plain_context [OF assms(1)] by (rule match_score_plain)
  moreover have "match_score (js ''Technical'') ?s = Some t"
    using star plain_technical [OF assms(1,2)] by (rule match_score_plain)
  moreover have "match_score (js ''Clarity'') ?s = Some cl"
    using star plain_clarity [OF assms(1-3)] by (rule match_score_plain)
  moreover have "match_score (js ''Final'') ?s = Some f"
    using star plain_final [OF assms(1-4)] by (rule match_score_plain)
  moreover have "match_justification ?s = Some cap"
    using star plain_justification [OF assms(1-4) cap] by (rule match_justification_plain)
  ultimately show ?thesis
    by (simp add: parseFormattedResponse_def search_code_block_no_backtick [OF tick]
        plain_form_headers tr)
qed

lemma parse_emphasized_form:
  assumes "is_digits c" "is_digits t" "is_digits cl" "is_digits f" "plain_line j"
  shows "parseFormattedResponse (emphasized_form c t cl f j) =
     Inr \<lparr>contextScore = int (parseInt c), technicalScore = int (parseInt t),
          clarityScore = int (parseInt cl), totalScore = int (parseInt f),
          justification = trim j\<rparr>"
proof -
  let ?s = "emphasized_form c t cl f j"
  have tick: "96 \<notin> set ?s"
    using emphasized_form_chars [OF assms] by simp
  from assms(5) obtain cap where cap: "ws_star_then (lazy_until la_emph) (32 # j) = Some cap"
    and tr: "trim cap = trim j"
    using capture_line [of j la_emph] by (auto simp: plain_line_def)
  have "match_score (js ''Context'') ?s = Some c"
    using emphasized_context [OF assms(1)] by (rule match_score_emphasized)
  moreover have "match_score (js ''Technical'') ?s = Some t"
    using emphasized_technical [OF assms(1,2)] by (rule match_score_emphasized)
  moreover have "match_score (js ''Clarity'') ?s = Some cl"
    using emphasized_clarity [OF assms(1-3)] by (rule match_score_emphasized)
  moreover have "match_score (js ''Final'') ?s = Some f"
    using emphasized_final [OF assms(1-4)] by (rule match_score_emphasized)
  moreover have "match_justification ?s = Some cap"
    using emphasized_justification [OF assms(1-4) cap] by (rule match_justification_emphasized)
  ultimately show ?thesis
    by (simp add: parseFormattedResponse_def search_code_block_no_backtick [OF tick]
        emphasized_form_headers tr)
qed

text \<open>
  Claim C5. For a response in the plain layout, with four scores written as digits (of
  integers that a JavaScript number holds exactly) and a justification line, the parser
  returns the four integers that the digits denote and the trimmed justification. For the
  same scores and justification in the emphasized layout, with the denominators /300,
  /400, /300 and /1000, the parser returns the same result.
\<close>

theorem parseFormattedResponse_round_trip:
  assumes "is_score c" "is_score t" "is_score cl" "is_score f" "plain_line j"
  shows "parseFormattedResponse (plain_form c t cl f j) =
     Inr \<lparr>contextScore = int (parseInt c), technicalScore = int (parseInt t),
          clarityScore = int (parseInt cl), totalScore = int (parseInt f),
          justification = trim j\<rparr> \<and>
   parseFormattedResponse (emphasized_form c t cl f j) =
     parseFormattedResponse (plain_form c t cl f j)"
proof -
  have d: "is_digits c" "is_digits t" "is_digits cl" "is_digits f"
    using assms(1-4) by (simp_all add: is_score_def)
  show ?thesis
    using parse_plain_form [OF d assms(5)] parse_emphasized_form [OF d assms(5)] by simp
qed

text \<open>Claim C5 at the scores 250, 300, 180 and 730.\<close>

theorem parseFormattedResponse_round_trip_witness:
  "parseFormattedResponse
     (plain_form (js ''250'') (js ''300'') (js ''180'') (js ''730'') (js '' Clear and correct.  '')) =
     Inr \<lparr>contextScore = 250, technicalScore = 300, clarityScore = 180, totalScore = 730,
          justification = js ''Clear and correct.''\<rparr> \<and>
   parseFormattedResponse
     (emphasized_form (js ''250'') (js ''300'') (js ''180'') (js ''730'') (js '' Clear and correct.  '')) =
     parseFormattedResponse
     (plain_form (js ''250'') (js ''300'') (js ''180'') (js ''730'') (js '' Clear and correct.  ''))"
proof -
  have d: "is_score (js ''250'')" "is_score (js ''300'')" "is_score (js ''180'')"
    "is_score (js ''730'')"
    by (simp_all add: is_score_def is_digits_def is_digit_def parseInt_def js_def)
  have l: "plain_line (js '' Clear and correct.  '')"
    by (simp add: plain_line_def js_def)
  have v: "int (parseInt (js ''250'')) = 250" "int (parseInt (js ''300'')) = 300"
    "int (parseInt (js ''180'')) = 180" "int (parseInt (js ''730'')) = 730"
    by (simp_all add: parseInt_def js_def)
  have t: "trim (js '' Clear and correct.  '') = js ''Clear and correct.''"
    by (simp add: trim_def js_def is_space_def)
  from parseFormattedResponse_round_trip [OF d l] show ?thesis
    unfolding v t by simp
qed







section \<open>Properties of the judgement run\<close>

lemma judge_steps_del_indep:
  "judge_steps (conv\<lparr>threads_del := d\<rparr>) jd gameId now response =
   judge_steps conv jd gameId now response"
  by (simp add: judge_steps_def
      cong del: option.case_cong_weak sum.case_cong_weak prod.case_cong_weak if_weak_cong)

lemma judgeResponse_created:
  assumes "threads_create conv = Inr tid" and "tid \<noteq> []"
  shows "judgeResponse conv jd gameId now response =
     map_option (\<lambda>r. \<lparr>outcome = r, deletions = 1,
        errors_logged =
          (case r of Inl e \<Rightarrow> [(js ''Error processing response '' @ a_id response @ js '':'', e)]
           | Inr _ \<Rightarrow> []) @
          (case threads_del conv of None \<Rightarrow> []
           | Some cleanupError \<Rightarrow> [(js ''Error cleaning up thread:'', cleanupError)])\<rparr>)
       (judge_steps conv jd gameId now response)"
  using assms
  by (simp add: judgeResponse_def Let_def split: option.splits)

text \<open>An invocation whose status calls are rate-limited for ever does not end, and does not
  reach the cleanup.\<close>

lemma judgeResponse_never_returns:
  assumes "threads_create conv = Inr tid" and "messages_create conv = None"
    and "runs_create conv = None"
    and "\<forall>k. \<exists>msg. runs_retrieve conv k = Inl (Error msg) \<and> includes_str (js ''Rate limit'') msg"
  shows "judgeResponse conv (Some jd) gameId now response = None"
proof -
  have "waitForRunCompletion (runs_retrieve conv) = None"
    unfolding waitForRunCompletion_def
    using assms(4) by (intro poll_loop_rate_limited_forever) (simp_all add: maxAttempts_def)
  then show ?thesis
    using assms(1-3) by (simp add: judgeResponse_def judge_steps_def)
qed

text \<open>
  Claim C4, as amended. When the thread has been created (with a non-empty id), every
  invocation that ends calls \<^verbatim>\<open>threads.del\<close> exactly once, whatever happens in the
  steps after the creation; its outcome is the judgement or the fault of those steps, the
  same whether the deletion succeeds or throws; and an error of the deletion is logged.
  When the creation of the thread itself throws, the invocation ends with that fault
  and the deletion is not called.
\<close>

theorem cleanup_once_when_created:
  "(threads_create conv = Inr tid \<and> tid \<noteq> [] \<longrightarrow>
      map_option deletions (judgeResponse conv jd gameId now response) =
        map_option (\<lambda>r. 1) (judge_steps conv jd gameId now response) \<and>
      map_option outcome (judgeResponse conv jd gameId now response) =
        judge_steps conv jd gameId now response \<and>
      map_option outcome (judgeResponse (conv\<lparr>threads_del := d\<rparr>) jd gameId now response) =
        map_option outcome (judgeResponse conv jd gameId now response) \<and>
      (threads_del conv = Some cleanupError \<longrightarrow>
         map_option (\<lambda>r. (js ''Error cleaning up thread:'', cleanupError) \<in> set (errors_logged r))
           (judgeResponse conv jd gameId now response) =
         map_option (\<lambda>r. True) (judge_steps conv jd gameId now response))) \<and>
   (threads_create conv = Inl e \<longrightarrow>
      judgeResponse conv jd gameId now response =
        Some \<lparr>outcome = Inl e, deletions = 0,
          errors_logged = [(js ''Error processing response '' @ a_id response @ js '':'', e)]\<rparr>)"
proof (intro conjI impI)
  assume a: "threads_create conv = Inr tid \<and> tid \<noteq> []"
  then have c: "threads_create conv = Inr tid" and t: "tid \<noteq> []" by simp_all
  note J = judgeResponse_created [OF c t, of jd gameId now response]
  show "map_option deletions (judgeResponse conv jd gameId now response) =
        map_option (\<lambda>r. 1) (judge_steps conv jd gameId now response)"
    unfolding J by (simp add: option.map_comp comp_def)
  show "map_option outcome (judgeResponse conv jd gameId now response) =
        judge_steps conv jd gameId now response"
    unfolding J by (simp add: option.map_comp comp_def option.map_ident)
  have c': "threads_create (conv\<lparr>threads_del := d\<rparr>) = Inr tid" using c by simp
  show "map_option outcome (judgeResponse (conv\<lparr>threads_del := d\<rparr>) jd gameId now response) =
        map_option outcome (judgeResponse conv jd gameId now response)"
    unfolding J judgeResponse_created [OF c' t, of jd gameId now response] judge_steps_del_indep
    by (simp add: option.map_comp comp_def)
  assume "threads_del conv = Some cleanupError"
  then show "map_option (\<lambda>r. (js ''Error cleaning up thread:'', cleanupError) \<in> set (errors_logged r))
           (judgeResponse conv jd gameId now response) =
         map_option (\<lambda>r. True) (judge_steps conv jd gameId now response)"
    unfolding J by (simp add: option.map_comp comp_def)
next
  assume "threads_create conv = Inl e"
  then show "judgeResponse conv jd gameId now response =
        Some \<lparr>outcome = Inl e, deletions = 0,
          errors_logged = [(js ''Error processing response '' @ a_id response @ js '':'', e)]\<rparr>"
    by (simp add: judgeResponse_def)
qed

lemma ex_reply_parsed:
  "parseFormattedResponse ex_reply =
     Inr \<lparr>contextScore = 100, technicalScore = 90, clarityScore = 60, totalScore = 250,
          justification = js ''Clear.''\<rparr>"
proof -
  have d: "is_digits (js ''100'')" "is_digits (js ''90'')" "is_digits (js ''60'')"
    "is_digits (js ''250'')"
    by (simp_all add: is_digits_def is_digit_def js_def)
  have l: "plain_line (js ''Clear.'')"
    by (simp add: plain_line_def js_def)
  have v: "int (parseInt (js ''100'')) = 100" "int (parseInt (js ''90'')) = 90"
    "int (parseInt (js ''60'')) = 60" "int (parseInt (js ''250'')) = 250"
    by (simp_all add: parseInt_def js_def)
  have t: "trim (js ''Clear.'') = js ''Clear.''"
    by (simp add: trim_def js_def is_space_def)
  show ?thesis
    unfolding ex_reply_def parse_plain_form [OF d l] v t by simp
qed

lemma garbled_not_parsed:
  "parseFormattedResponse (js ''I cannot judge this.'') =
     Inl (Error (js ''Could not parse Context Score''))"
proof -
  have "match_score (js ''Context'') (js ''I cannot judge this.'') = None"
    by (simp add: match_score_def js_def score_at_def canon_def)
  moreover have "regex_search code_block_at (js ''I cannot judge this.'') = None"
    by (rule search_code_block_no_backtick) (simp add: js_def)
  moreover have "strip_header2 (strip_header1 (js ''I cannot judge this.'')) = js ''I cannot judge this.''"
    by (simp add: strip_header1_def strip_header2_def strip_lit_def opt_lit_def starts_with_def
        js_def canon_def)
  ultimately show ?thesis
    by (simp add: parseFormattedResponse_def)
qed

lemma wait_completed_at_once:
  "waitForRunCompletion (\<lambda>k. Inr ex_completed) = Some (Inr ex_completed, Suc 0, [])"
  unfolding waitForRunCompletion_def
  by (rule poll_loop_completed) (simp_all add: maxAttempts_def ex_completed_def)

lemma wait_failed_at_once:
  "waitForRunCompletion (\<lambda>k. Inr ex_failed) = Some (Inl (Error (js ''Run failed'')), Suc 0, [])"
proof -
  have "poll_once (Inr ex_failed) = Rethrow (Error (run_failed_message ex_failed))"
    by (rule poll_once_failed)
       (simp_all add: ex_failed_def run_failed_message_def js_def starts_with_def)
  then have "poll_loop (\<lambda>k. Inr ex_failed) 0 0 [] =
      Some (Inl (Error (run_failed_message ex_failed)), Suc 0, [])"
    by (intro poll_loop_rethrow) (simp_all add: maxAttempts_def)
  then show ?thesis
    by (simp add: waitForRunCompletion_def run_failed_message_def ex_failed_def)
qed

lemma ex_steps_ok:
  "judge_steps ex_conv_ok (Some ex_judge) (js ''g1'') (js ''t2'') ex_answer1 = Some (Inr ex_judgement1)"
  by (simp add: judge_steps_def ex_conv_ok_def wait_completed_at_once ex_reply_parsed
      ex_answer1_def ex_judgement1_def)
     (simp add: js_def)

lemma ex_steps_garbled:
  "judge_steps ex_conv_garbled (Some ex_judge) (js ''g1'') (js ''t2'') ex_answer1 =
     Some (Inl (Error (js ''Could not parse Context Score'')))"
  by (simp add: judge_steps_def ex_conv_garbled_def ex_conv_ok_def wait_completed_at_once
      garbled_not_parsed)

text \<open>Claim C4 (amended) at three conversations: one that yields a judgement while the
  deletion throws, one whose reply cannot be parsed, one whose thread is not created.\<close>

theorem cleanup_once_when_created_witness:
  "map_option deletions (judgeResponse ex_conv_ok (Some ex_judge) (js ''g1'') (js ''t2'') ex_answer1) =
     Some 1 \<and>
   map_option outcome (judgeResponse ex_conv_ok (Some ex_judge) (js ''g1'') (js ''t2'') ex_answer1) =
     Some (Inr ex_judgement1) \<and>
   threads_del ex_conv_ok = Some (Error (js ''No thread found'')) \<and>
   map_option (\<lambda>r. (js ''Error cleaning up thread:'', Error (js ''No thread found'')) \<in> set (errors_logged r))
     (judgeResponse ex_conv_ok (Some ex_judge) (js ''g1'') (js ''t2'') ex_answer1) = Some True \<and>
   map_option outcome
     (judgeResponse (ex_conv_ok\<lparr>threads_del := None\<rparr>) (Some ex_judge) (js ''g1'') (js ''t2'') ex_answer1) =
     Some (Inr ex_judgement1) \<and>
   map_option deletions
     (judgeResponse ex_conv_garbled (Some ex_judge) (js ''g1'') (js ''t2'') ex_answer1) = Some 1 \<and>
   map_option outcome
     (judgeResponse ex_conv_garbled (Some ex_judge) (js ''g1'') (js ''t2'') ex_answer1) =
     Some (Inl (Error (js ''Could not parse Context Score''))) \<and>
   judgeResponse ex_conv_no_thread (Some ex_judge) (js ''g1'') (js ''t2'') ex_answer1 =
     Some \<lparr>outcome = Inl (Error (js ''Connection error.'')), deletions = 0,
       errors_logged = [(js ''Error processing response '' @ a_id ex_answer1 @ js '':'',
         Error (js ''Connection error.''))]\<rparr>"
proof -
  have c1: "threads_create ex_conv_ok = Inr (js ''thread_1'') \<and> js ''thread_1'' \<noteq> []"
    by (simp add: ex_conv_ok_def js_def)
  have c2: "threads_create ex_conv_garbled = Inr (js ''thread_1'') \<and> js ''thread_1'' \<noteq> []"
    by (simp add: ex_conv_garbled_def ex_conv_ok_def js_def)
  have c3: "threads_create ex_conv_no_thread = Inl (Error (js ''Connection error.''))"
    by (simp add: ex_conv_no_thread_def)
  have d: "threads_del ex_conv_ok = Some (Error (js ''No thread found''))"
    by (simp add: ex_conv_ok_def)
  note A = cleanup_once_when_created [where conv = ex_conv_ok and tid = "js ''thread_1''"
      and jd = "Some ex_judge" and gameId = "js ''g1''" and now = "js ''t2''"
      and response = ex_answer1 and d = None and cleanupError = "Error (js ''No thread found'')"]
  note B = cleanup_once_when_created [where conv = ex_conv_garbled and tid = "js ''thread_1''"
      and jd = "Some ex_judge" and gameId = "js ''g1''" and now = "js ''t2''"
      and response = ex_answer1]
  note C = cleanup_once_when_created [where conv = ex_conv_no_thread
      and e = "Error (js ''Connection error.'')"
      and jd = "Some ex_judge" and gameId = "js ''g1''" and now = "js ''t2''"
      and response = ex_answer1]
  from A c1 d show ?thesis
    using B c2 C c3 unfolding ex_steps_ok ex_steps_garbled by simp
qed

text \<open>
  Claim C4, as stated, fails: when \<^verbatim>\<open>threads.create\<close> throws, the cleanup step is
  executed zero times, not once.
\<close>

theorem no_cleanup_without_thread:
  "map_option deletions
     (judgeResponse ex_conv_no_thread (Some ex_judge) (js ''g1'') (js ''t2'') ex_answer1) = Some 0"
  by (simp add: judgeResponse_def ex_conv_no_thread_def)

lemma first_rejection_exists:
  assumes "i < length rs" and "rs ! i = Some (Inl e)"
  shows "\<exists>k e'. k < length rs \<and> rs ! k = Some (Inl e') \<and> first_rejection order rs = Some e'"
proof -
  let ?P = "\<lambda>i. i < length rs \<and> rejection (rs ! i) \<noteq> None"
  have "?P i" using assms by simp
  moreover have "i \<in> set (order @ [0..<length rs])" using assms(1) by simp
  ultimately have "find ?P (order @ [0..<length rs]) \<noteq> None"
    by (auto simp: find_None_iff)
  then obtain k where k: "find ?P (order @ [0..<length rs]) = Some k" by auto
  then have pk: "?P k" by (auto simp: find_Some_iff)
  then obtain e' where e': "rs ! k = Some (Inl e')"
    by (cases "rs ! k" rule: rejection.cases) auto
  with k pk have "first_rejection order rs = Some e'"
    by (simp add: first_rejection_def)
  with pk e' show ?thesis by blast
qed

lemma judge_runs_nth:
  "i < length rs \<Longrightarrow>
   judge_runs env game gameId rs ! i =
     judgeResponse (conversation env i) (judge game) gameId (clock_j env i) (rs ! i)"
  by (simp add: judge_runs_def)

lemma judge_runs_length: "length (judge_runs env game gameId rs) = length rs"
  by (simp add: judge_runs_def)

text \<open>
  Claim C8. When the judging of one stored answer ends in a fault, the handler answers
  with status 500 and the message of the rejection that comes first in the order in which
  the tasks settle, which is the fault of one of the answers; the store is left as it was:
  no judgements are stored and no player is updated.
\<close>

theorem one_fault_aborts_run:
  assumes "gameId \<noteq> []" and "game_read_fault_j env = None"
    and "games store gameId = Some game" and "aiResponses game = Some rs" and "rs \<noteq> []"
    and "i < length rs"
    and "judgeResponse (conversation env i) (judge game) gameId (clock_j env i) (rs ! i) = Some r"
    and "outcome r = Inl e"
  shows "\<exists>k e'. k < length rs \<and>
     map_option outcome
       (judgeResponse (conversation env k) (judge game) gameId (clock_j env k) (rs ! k)) =
       Some (Inl e') \<and>
     first_rejection (settle_order env) (map (map_option outcome) (judge_runs env game gameId rs)) =
       Some e' \<and>
     generateJudgements env (Some gameId) store =
       Some (Status500 (js ''Internal server error occurred'') (errorMessage e'), store)"
proof -
  let ?os = "map (map_option outcome) (judge_runs env game gameId rs)"
  have len: "length ?os = length rs" by (simp add: judge_runs_length)
  have "?os ! i = Some (Inl e)"
    using assms(6-8) by (simp add: judge_runs_length judge_runs_nth)
  with assms(6) len obtain k e' where k: "k < length rs" "?os ! k = Some (Inl e')"
    and fr: "first_rejection (settle_order env) ?os = Some e'"
    using first_rejection_exists [of i ?os e "settle_order env"] by auto
  from k have "map_option outcome
       (judgeResponse (conversation env k) (judge game) gameId (clock_j env k) (rs ! k)) =
       Some (Inl e')"
    by (simp add: judge_runs_length judge_runs_nth)
  moreover have "generateJudgements env (Some gameId) store =
       Some (Status500 (js ''Internal server error occurred'') (errorMessage e'), store)"
    using assms(1-5) fr by (simp add: generateJudgements_def promise_all_def)
  ultimately show ?thesis using k(1) fr by blast
qed

lemma ex_steps_run_failed:
  "judge_steps ex_conv_run_failed jd (js ''g1'') now a =
     (case jd of None \<Rightarrow> Some (Inl asst_id_of_undefined)
      | Some _ \<Rightarrow> Some (Inl (Error (js ''Run failed''))))"
  by (simp add: judge_steps_def ex_conv_run_failed_def ex_conv_ok_def wait_failed_at_once
      split: option.splits)

lemma ex_outcomes_j:
  "map (map_option outcome)
     (judge_runs ex_env_j (ex_game\<lparr>aiResponses := Some [ex_answer1, ex_answer2]\<rparr>) (js ''g1'')
        [ex_answer1, ex_answer2]) =
   [Some (Inr ex_judgement1), Some (Inl (Error (js ''Run failed'')))]"
proof -
  have t1: "threads_create ex_conv_ok = Inr (js ''thread_1'')" "js ''thread_1'' \<noteq> []"
    by (simp_all add: ex_conv_ok_def js_def)
  have t2: "threads_create ex_conv_run_failed = Inr (js ''thread_1'')"
    by (simp add: ex_conv_run_failed_def ex_conv_ok_def)
  have u: "[0..<length [ex_answer1, ex_answer2]] = [0, Suc 0]"
    by (simp add: upt_rec)
  show ?thesis
    unfolding judge_runs_def u
    by (simp add: ex_env_j_def ex_game_def judgeResponse_created [OF t1]
        judgeResponse_created [OF t2 t1(2)] ex_steps_ok ex_steps_run_failed)
qed

text \<open>Claim C8 at a game with two stored answers: the first is judged, the run of the
  second fails.\<close>

theorem one_fault_aborts_run_witness:
  "generateJudgements ex_env_j (Some (js ''g1'')) ex_store_j =
     Some (Status500 (js ''Internal server error occurred'') (js ''Run failed''), ex_store_j) \<and>
   map_option outcome
     (judgeResponse (conversation ex_env_j 1) (Some ex_judge) (js ''g1'') (clock_j ex_env_j 1) ex_answer2) =
     Some (Inl (Error (js ''Run failed''))) \<and>
   map_option outcome
     (judgeResponse (conversation ex_env_j 0) (Some ex_judge) (js ''g1'') (clock_j ex_env_j 0) ex_answer1) =
     Some (Inr ex_judgement1)"
proof -
  let ?g = "ex_game\<lparr>aiResponses := Some [ex_answer1, ex_answer2]\<rparr>"
  let ?rs = "[ex_answer1, ex_answer2]"
  have jd: "judge ?g = Some ex_judge" by (simp add: ex_game_def)
  have n: "judge_runs ex_env_j ?g (js ''g1'') ?rs ! 1 =
      judgeResponse (conversation ex_env_j 1) (judge ?g) (js ''g1'') (clock_j ex_env_j 1) (?rs ! 1)"
    by (rule judge_runs_nth) simp
  have n0: "judge_runs ex_env_j ?g (js ''g1'') ?rs ! 0 =
      judgeResponse (conversation ex_env_j 0) (judge ?g) (js ''g1'') (clock_j ex_env_j 0) (?rs ! 0)"
    by (rule judge_runs_nth) simp
  have "map (map_option outcome) (judge_runs ex_env_j ?g (js ''g1'') ?rs) ! 1 =
      Some (Inl (Error (js ''Run failed'')))"
    unfolding ex_outcomes_j by simp
  then have o1: "map_option outcome
      (judgeResponse (conversation ex_env_j 1) (judge ?g) (js ''g1'') (clock_j ex_env_j 1) ex_answer2) =
      Some (Inl (Error (js ''Run failed'')))"
    using n by (simp add: judge_runs_length)
  have "map (map_option outcome) (judge_runs ex_env_j ?g (js ''g1'') ?rs) ! 0 =
      Some (Inr ex_judgement1)"
    unfolding ex_outcomes_j by simp
  then have o0: "map_option outcome
      (judgeResponse (conversation ex_env_j 0) (judge ?g) (js ''g1'') (clock_j ex_env_j 0) ex_answer1) =
      Some (Inr ex_judgement1)"
    using n0 by (simp add: judge_runs_length)
  from o1 obtain r where r: "judgeResponse (conversation ex_env_j 1) (judge ?g) (js ''g1'')
      (clock_j ex_env_j 1) (?rs ! 1) = Some r" "outcome r = Inl (Error (js ''Run failed''))"
    by auto
  have pre: "js ''g1'' \<noteq> []" "game_read_fault_j ex_env_j = None"
    "games ex_store_j (js ''g1'') = Some ?g" "aiResponses ?g = Some ?rs" "?rs \<noteq> []"
    "1 < length ?rs"
    by (simp_all add: js_def ex_env_j_def ex_store_j_def)
  have fr: "first_rejection (settle_order ex_env_j)
      (map (map_option outcome) (judge_runs ex_env_j ?g (js ''g1'') ?rs)) =
      Some (Error (js ''Run failed''))"
    unfolding ex_outcomes_j by (simp add: first_rejection_def ex_env_j_def upt_rec)
  from one_fault_aborts_run [OF pre r] fr
  have "generateJudgements ex_env_j (Some (js ''g1'')) ex_store_j =
     Some (Status500 (js ''Internal server error occurred'') (js ''Run failed''), ex_store_j)"
    by auto
  with o1 o0 jd show ?thesis by simp
qed

lemma generateJudgements_joined:
  assumes "gameId \<noteq> []" and "game_read_fault_j env = None"
    and "games store gameId = Some game" and "aiResponses game = Some rs" and "rs \<noteq> []"
    and "promise_all (settle_order env) (map (map_option outcome) (judge_runs env game gameId rs)) =
           Some (Inr jl)"
    and "judgements_patch_fault env = None"
    and "store1 = store\<lparr>games := (games store)(gameId \<mapsto> game\<lparr>judgements := Some jl\<rparr>)\<rparr>"
  shows "generateJudgements env (Some gameId) store =
     (case aggregateScores env game gameId jl store1 of
        Inl e \<Rightarrow> Some (Status500 (js ''Internal server error occurred'') (errorMessage e), store1)
      | Inr store2 \<Rightarrow>
          Some (Status200
            \<lparr>message_jbody = js ''Successfully generated judgements and updated player scores'',
             gameId_jbody = gameId, processedCount_j = length jl, judgements_jbody = jl\<rparr>, store2))"
  using assms by (simp add: generateJudgements_def patch_judgements_def split: sum.splits)

text \<open>The Score Aggregator on player ids that are not names of inherited properties:
  grouping succeeds, and every player document of the game that the judgements name, and
  whose read and patch do not fail, gets the sum of its judged total scores and the theme
  name; every other document is left as it is.\<close>

lemma foldl_add_sum: "foldl (\<lambda>sum score. sum + score) (a::int) xs = a + sum_list xs"
  by (induction xs arbitrary: a) simp_all

lemma map_of_update_key:
  "map_of (map (\<lambda>(k, v). if k = x then (k, f v) else (k, v)) acc) k =
     (if k = x then map_option f (map_of acc k) else map_of acc k)"
  by (induction acc) auto

lemma fst_update_key: "map fst (map (\<lambda>(k, v). if k = x then (k, f v) else (k, v)) acc) = map fst acc"
  by (induction acc) auto

lemma add_judgement_props:
  assumes "j_playerId j \<notin> set object_prototype_keys" and "distinct (map fst acc)"
  shows "\<exists>acc1. add_judgement acc j = Inr acc1 \<and> distinct (map fst acc1) \<and>
     fst ` set acc1 = insert (j_playerId j) (fst ` set acc) \<and>
     (\<forall>k. totals_of acc1 k =
        (if k = j_playerId j then totals_of acc k @ [j_totalScore j] else totals_of acc k))"
proof (cases "map_of acc (j_playerId j)")
  case None
  then have nin: "j_playerId j \<notin> fst ` set acc" by (simp add: map_of_eq_None_iff)
  let ?acc1 = "acc @ [(j_playerId j, push_scores no_scores j)]"
  have 1: "add_judgement acc j = Inr ?acc1"
    using None assms(1) by (simp add: add_judgement_def)
  have 2: "distinct (map fst ?acc1)" using assms(2) nin by simp
  have 3: "fst ` set ?acc1 = insert (j_playerId j) (fst ` set acc)" by auto
  have 4: "totals_of ?acc1 k =
        (if k = j_playerId j then totals_of acc k @ [j_totalScore j] else totals_of acc k)" for k
    using None
    by (auto simp: totals_of_def map_add_def push_scores_def no_scores_def split: option.splits)
  from 1 2 3 4 show ?thesis by blast
next
  case (Some s)
  then have inn: "j_playerId j \<in> fst ` set acc"
    by (metis map_of_eq_None_iff option.distinct(1))
  let ?acc1 = "map (\<lambda>(k, v). if k = j_playerId j then (k, push_scores v j) else (k, v)) acc"
  have 1: "add_judgement acc j = Inr ?acc1"
    using Some by (simp add: add_judgement_def)
  have f: "map fst ?acc1 = map fst acc" by (rule fst_update_key)
  have 2: "distinct (map fst ?acc1)" using assms(2) by (simp only: f)
  have "set (map fst ?acc1) = set (map fst acc)" by (simp only: f)
  then have 3: "fst ` set ?acc1 = insert (j_playerId j) (fst ` set acc)"
    using inn by (simp only: set_map) blast
  have 4: "totals_of ?acc1 k =
        (if k = j_playerId j then totals_of acc k @ [j_totalScore j] else totals_of acc k)" for k
    using Some
    by (simp add: totals_of_def map_of_update_key push_scores_def split: option.splits)
  from 1 2 3 4 show ?thesis by blast
qed

lemma collect_scores_props:
  assumes "\<forall>j \<in> set jl. j_playerId j \<notin> set object_prototype_keys" and "distinct (map fst acc)"
  shows "\<exists>acc'. collect_scores acc jl = Inr acc' \<and> distinct (map fst acc') \<and>
     fst ` set acc' = fst ` set acc \<union> j_playerId ` set jl \<and>
     (\<forall>k. totals_of acc' k = totals_of acc k @ map j_totalScore (filter (\<lambda>j. j_playerId j = k) jl))"
  using assms
proof (induction jl arbitrary: acc)
  case Nil
  then show ?case by simp
next
  case (Cons j jl)
  from Cons.prems obtain acc1 where a1: "add_judgement acc j = Inr acc1"
    and d1: "distinct (map fst acc1)"
    and k1: "fst ` set acc1 = insert (j_playerId j) (fst ` set acc)"
    and t1: "\<And>k. totals_of acc1 k =
        (if k = j_playerId j then totals_of acc k @ [j_totalScore j] else totals_of acc k)"
    using add_judgement_props [of j acc] by auto
  from Cons.prems(1) have "\<forall>j \<in> set jl. j_playerId j \<notin> set object_prototype_keys" by simp
  from Cons.IH [OF this d1] obtain acc' where c: "collect_scores acc1 jl = Inr acc'"
    and d: "distinct (map fst acc')"
    and k: "fst ` set acc' = fst ` set acc1 \<union> j_playerId ` set jl"
    and t: "\<And>k. totals_of acc' k =
        totals_of acc1 k @ map j_totalScore (filter (\<lambda>j. j_playerId j = k) jl)"
    by auto
  have "collect_scores acc (j # jl) = Inr acc'" using a1 c by simp
  moreover have "fst ` set acc' = fst ` set acc \<union> j_playerId ` set (j # jl)"
    using k k1 by auto
  moreover have "totals_of acc' k =
      totals_of acc k @ map j_totalScore (filter (\<lambda>j. j_playerId j = k) (j # jl))" for k
    unfolding t t1 by simp
  ultimately show ?case using d by blast
qed


lemma find_None_map:
  "find P xs = None \<Longrightarrow> map (\<lambda>p. if P p then f p else p) xs = xs"
  by (induction xs) (auto split: if_splits)

lemma updatePlayer_scored:
  "updatePlayer env game gameId (k, s) store =
     store\<lparr>players := map (scored env game gameId [(k, s)]) (players store)\<rparr>"
proof -
  let ?P = "\<lambda>p. p_id p = k \<and> p_gameId p = gameId"
  let ?f = "\<lambda>p. p\<lparr>p_totalScore := Some (foldl (\<lambda>sum score. sum + score) 0 (totalScores s)),
                  p_themeName := Some (themeName_of game)\<rparr>"
  have sc: "scored env game gameId [(k, s)] =
      (\<lambda>p. if ?P p \<and> player_read_fault env k = None \<and> player_patch_fault env k = None
           then ?f p else p)"
    by (rule ext) (auto simp: scored_def totals_of_def foldl_add_sum)
  show ?thesis
  proof (cases "player_read_fault env k = None \<and> player_patch_fault env k = None")
    case False
    then have "scored env game gameId [(k, s)] = (\<lambda>p. p)"
      by (intro ext) (auto simp: scored_def)
    then have "map (scored env game gameId [(k, s)]) (players store) = players store"
      by (simp only: list.map_ident)
    moreover have "updatePlayer env game gameId (k, s) store = store"
      using False by (auto simp: updatePlayer_def Let_def split: option.splits)
    ultimately show ?thesis by simp
  next
    case True
    show ?thesis
    proof (cases "find ?P (players store)")
      case None
      then have "map (\<lambda>p. if ?P p then ?f p else p) (players store) = players store"
        by (rule find_None_map)
      then have "map (scored env game gameId [(k, s)]) (players store) = players store"
        unfolding sc using True by simp
      moreover have "updatePlayer env game gameId (k, s) store = store"
        using None True by (simp add: updatePlayer_def Let_def)
      ultimately show ?thesis by simp
    next
      case (Some player)
      then show ?thesis
        unfolding sc using True by (simp add: updatePlayer_def Let_def)
    qed
  qed
qed

lemma scored_Cons:
  assumes "k \<notin> fst ` set rest"
  shows "scored env game gameId rest (scored env game gameId [(k, s)] p) =
         scored env game gameId ((k, s) # rest) p"
proof (cases "p_id p = k")
  case True
  then show ?thesis
    using assms by (auto simp: scored_def totals_of_def)
next
  case False
  then show ?thesis
    by (auto simp: scored_def totals_of_def)
qed

lemma fold_updatePlayer:
  "distinct (map fst ps) \<Longrightarrow>
   fold (updatePlayer env game gameId) ps store =
     store\<lparr>players := map (scored env game gameId ps) (players store)\<rparr>"
proof (induction ps arbitrary: store)
  case Nil
  have "map (scored env game gameId []) (players store) = players store"
    by (simp add: scored_def map_idI)
  then show ?case by simp
next
  case (Cons e ps)
  obtain k s where e: "e = (k, s)" by (cases e)
  from Cons.prems e have nin: "k \<notin> fst ` set ps" and d: "distinct (map fst ps)" by auto
  have "fold (updatePlayer env game gameId) (e # ps) store =
      fold (updatePlayer env game gameId) ps
        (store\<lparr>players := map (scored env game gameId [(k, s)]) (players store)\<rparr>)"
    by (simp add: e updatePlayer_scored)
  also have "\<dots> = store\<lparr>players :=
      map (scored env game gameId ps) (map (scored env game gameId [(k, s)]) (players store))\<rparr>"
    unfolding Cons.IH [OF d] by simp
  also have "map (scored env game gameId ps) (map (scored env game gameId [(k, s)]) (players store)) =
      map (scored env game gameId (e # ps)) (players store)"
    using scored_Cons [OF nin] by (simp add: e)
  finally show ?case .
qed

lemma aggregateScores_sums:
  assumes "\<forall>j \<in> set jl. j_playerId j \<notin> set object_prototype_keys"
  shows "aggregateScores env game gameId jl store =
     Inr (store\<lparr>players :=
       map (\<lambda>p. if p_gameId p = gameId \<and> p_id p \<in> j_playerId ` set jl \<and>
                    player_read_fault env (p_id p) = None \<and> player_patch_fault env (p_id p) = None
                 then p\<lparr>p_totalScore := Some (player_total jl (p_id p)),
                        p_themeName := Some (themeName_of game)\<rparr>
                 else p)
         (players store)\<rparr>)"
proof -
  from collect_scores_props [OF assms, of "[]"]
  obtain acc' where c: "collect_scores [] jl = Inr acc'" and d: "distinct (map fst acc')"
    and k: "fst ` set acc' = j_playerId ` set jl"
    and t: "\<And>k. totals_of acc' k = map j_totalScore (filter (\<lambda>j. j_playerId j = k) jl)"
    by (auto simp: totals_of_def)
  have "scored env game gameId acc' =
      (\<lambda>p. if p_gameId p = gameId \<and> p_id p \<in> j_playerId ` set jl \<and>
                player_read_fault env (p_id p) = None \<and> player_patch_fault env (p_id p) = None
            then p\<lparr>p_totalScore := Some (player_total jl (p_id p)),
                   p_themeName := Some (themeName_of game)\<rparr>
            else p)"
    by (rule ext) (simp add: scored_def k t player_total_def)
  then show ?thesis
    by (simp add: aggregateScores_def c fold_updatePlayer [OF d])
qed


lemma generateJudgements_scores:
  assumes "gameId \<noteq> []" and "game_read_fault_j env = None"
    and "games store gameId = Some game" and "aiResponses game = Some rs" and "rs \<noteq> []"
    and "promise_all (settle_order env) (map (map_option outcome) (judge_runs env game gameId rs)) =
           Some (Inr jl)"
    and "judgements_patch_fault env = None"
    and "\<forall>j \<in> set jl. j_playerId j \<notin> set object_prototype_keys"
  shows "generateJudgements env (Some gameId) store =
     Some (Status200
        \<lparr>message_jbody = js ''Successfully generated judgements and updated player scores'',
         gameId_jbody = gameId, processedCount_j = length jl, judgements_jbody = jl\<rparr>,
       store\<lparr>games := (games store)(gameId \<mapsto> game\<lparr>judgements := Some jl\<rparr>),
         players :=
           map (\<lambda>p. if p_gameId p = gameId \<and> p_id p \<in> j_playerId ` set jl \<and>
                        player_read_fault env (p_id p) = None \<and>
                        player_patch_fault env (p_id p) = None
                     then p\<lparr>p_totalScore := Some (player_total jl (p_id p)),
                            p_themeName := Some (themeName_of game)\<rparr>
                     else p)
             (players store)\<rparr>)"
  unfolding generateJudgements_joined [OF assms(1-7) refl] aggregateScores_sums [OF assms(8)]
  by simp

lemma player_total_example:
  "player_total
     [ex_judgement1, ex_judgement1\<lparr>j_playerId := js ''u2'', j_totalScore := 500\<rparr>,
      ex_judgement1\<lparr>j_totalScore := 300\<rparr>, ex_judgement1\<lparr>j_totalScore := 180\<rparr>] (js ''u1'') = 730"
  by (simp add: player_total_def ex_judgement1_def js_def)

text \<open>
  Claim C1. The claim holds for the player ids that are not names of inherited properties
  (see the lemmas on \<open>aggregateScores\<close>), but not for every list of judgements: for a
  player whose id is "constructor", judged with the total score 250 and present in the
  player store, grouping throws a TypeError. The handler answers with status 500 after it
  has stored the judgements, and the player's total score is not written.
\<close>

theorem inherited_name_breaks_aggregation:
  "generateJudgements ex_env_c (Some (js ''g1'')) ex_store_c =
     Some (Status500 (js ''Internal server error occurred'') (errorMessage push_of_undefined),
       ex_store_c\<lparr>games := [js ''g1'' \<mapsto>
         ex_game\<lparr>aiResponses := Some [ex_answer_c], judgements := Some [ex_judgement_c]\<rparr>]\<rparr>) \<and>
   players ex_store_c = [ex_player_c] \<and> p_totalScore ex_player_c = None \<and>
   j_playerId ex_judgement_c = p_id ex_player_c \<and> j_totalScore ex_judgement_c = 250"
proof -
  let ?g = "ex_game\<lparr>aiResponses := Some [ex_answer_c]\<rparr>"
  have t1: "threads_create ex_conv_ok = Inr (js ''thread_1'')" "js ''thread_1'' \<noteq> []"
    by (simp_all add: ex_conv_ok_def js_def)
  have st: "judge_steps ex_conv_ok (Some ex_judge) (js ''g1'') (js ''t2'') ex_answer_c =
      Some (Inr ex_judgement_c)"
    by (simp add: judge_steps_def ex_conv_ok_def wait_completed_at_once ex_reply_parsed
        ex_answer1_def ex_judgement1_def ex_answer_c_def ex_judgement_c_def)
       (simp add: js_def)
  have u: "[0..<length [ex_answer_c]] = [0]" by (simp add: upt_rec)
  have os: "map (map_option outcome) (judge_runs ex_env_c ?g (js ''g1'') [ex_answer_c]) =
      [Some (Inr ex_judgement_c)]"
    unfolding judge_runs_def u
    by (simp add: ex_env_c_def ex_env_j_def ex_game_def judgeResponse_created [OF t1] st)
  have pa: "promise_all (settle_order ex_env_c) [Some (Inr ex_judgement_c)] = Some (Inr [ex_judgement_c])"
    by (simp add: promise_all_def first_rejection_def ex_env_c_def ex_env_j_def upt_rec)
  have ag: "aggregateScores ex_env_c ?g (js ''g1'') [ex_judgement_c] s = Inl push_of_undefined" for s
    by (simp add: aggregateScores_def add_judgement_def ex_judgement_c_def ex_judgement1_def
        object_prototype_keys_def)
  have pre: "js ''g1'' \<noteq> []" "game_read_fault_j ex_env_c = None"
    "games ex_store_c (js ''g1'') = Some ?g" "aiResponses ?g = Some [ex_answer_c]"
    "[ex_answer_c] \<noteq> []"
    by (simp_all add: js_def ex_env_c_def ex_env_j_def ex_store_c_def)
  have pa': "promise_all (settle_order ex_env_c)
      (map (map_option outcome) (judge_runs ex_env_c ?g (js ''g1'') [ex_answer_c])) =
      Some (Inr [ex_judgement_c])"
    unfolding os by (rule pa)
  have pf: "judgements_patch_fault ex_env_c = None"
    by (simp add: ex_env_c_def ex_env_j_def)
  have "generateJudgements ex_env_c (Some (js ''g1'')) ex_store_c =
     Some (Status500 (js ''Internal server error occurred'') (errorMessage push_of_undefined),
       ex_store_c\<lparr>games := [js ''g1'' \<mapsto>
         ex_game\<lparr>aiResponses := Some [ex_answer_c], judgements := Some [ex_judgement_c]\<rparr>]\<rparr>)"
    unfolding generateJudgements_joined [OF pre pa' pf refl] ag
    by (simp add: ex_store_c_def)
  then show ?thesis
    by (simp add: ex_store_c_def ex_player_c_def ex_judgement_c_def ex_judgement1_def)
qed



end
